theory Spec2Isabelle
  imports Main "HOL-Library.AList" "HOL-Library.Char_ord" "HOL-Library.List_Lexorder"
begin

section \<open>Strings and regular expressions\<close>

text \<open>
  A Go \<^verbatim>\<open>string\<close> is a sequence of bytes; it is modelled as a \<^typ>\<open>string\<close>
  (a list of \<^typ>\<open>char\<close>, one per byte).

  The program uses package \<^verbatim>\<open>regexp\<close> for three things: the six category patterns
  built in \<^verbatim>\<open>New\<close>, the literal probe marker, and the DOM pattern of
  \<^verbatim>\<open>Process\<close>. The patterns are written here in parsed form, over the
  constructs they use. Matching is leftmost-first, as in Go: among the matches that
  start at the leftmost possible position, the one a backtracking search finds first,
  where an alternation prefers its left branch, \<^verbatim>\<open>x*\<close> prefers one more
  iteration and \<^verbatim>\<open>x*?\<close> prefers to stop.
\<close>

datatype regex =
    Str string          \<comment> \<open>a literal string\<close>
  | Cls "char list"     \<comment> \<open>a character class: one of the listed bytes\<close>
  | Dot                 \<comment> \<open>\<^verbatim>\<open>.\<close> without flag s: any byte but a newline\<close>
  | EOL                 \<comment> \<open>\<^verbatim>\<open>$\<close> under flag m: at the end of the text or before a newline\<close>
  | Seq regex regex
  | Alt regex regex     \<comment> \<open>\<^verbatim>\<open>a|b\<close>, preferring \<^verbatim>\<open>a\<close>\<close>
  | Star regex          \<comment> \<open>\<^verbatim>\<open>x*\<close>, greedy\<close>
  | Lazy regex          \<comment> \<open>\<^verbatim>\<open>x*?\<close>, non-greedy\<close>
  | Grp nat regex       \<comment> \<open>capturing group number n\<close>

type_synonym caps = "(nat \<times> string) list"

text \<open>
  \<open>rmatch r s c\<close> lists, in order of preference, every way \<open>r\<close> matches a prefix of
  \<open>s\<close>: the rest of the input after the match, and the captures (most recent first).
  An iteration of a star that consumes nothing is not repeated.
\<close>

function rmatch :: "regex \<Rightarrow> string \<Rightarrow> caps \<Rightarrow> (string \<times> caps) list" where
  "rmatch (Str w) s c = (if take (length w) s = w then [(drop (length w) s, c)] else [])"
| "rmatch (Cls cs) s c =
     (case s of [] \<Rightarrow> [] | x # xs \<Rightarrow> if x \<in> set cs then [(xs, c)] else [])"
| "rmatch Dot s c =
     (case s of [] \<Rightarrow> [] | x # xs \<Rightarrow> if x = CHR 0x0A then [] else [(xs, c)])"
| "rmatch EOL s c =
     (case s of [] \<Rightarrow> [(s, c)] | x # xs \<Rightarrow> if x = CHR 0x0A then [(s, c)] else [])"
| "rmatch (Seq a b) s c = concat (map (\<lambda>p. rmatch b (fst p) (snd p)) (rmatch a s c))"
| "rmatch (Alt a b) s c = rmatch a s c @ rmatch b s c"
| "rmatch (Star r) s c =
     concat (map (\<lambda>p. if length (fst p) < length s then rmatch (Star r) (fst p) (snd p) else [])
                 (rmatch r s c)) @ [(s, c)]"
| "rmatch (Lazy r) s c =
     (s, c) # concat (map (\<lambda>p. if length (fst p) < length s then rmatch (Lazy r) (fst p) (snd p) else [])
                          (rmatch r s c))"
| "rmatch (Grp n r) s c =
     map (\<lambda>p. (fst p, (n, take (length s - length (fst p)) s) # snd p)) (rmatch r s c)"
  by pat_completeness auto
termination
  by (relation "measures [\<lambda>(r, s, c). size r, \<lambda>(r, s, c). length s]") auto

text \<open>The number of capturing groups of a pattern.\<close>

fun NumSubexp :: "regex \<Rightarrow> nat" where
  "NumSubexp (Seq a b) = NumSubexp a + NumSubexp b"
| "NumSubexp (Alt a b) = NumSubexp a + NumSubexp b"
| "NumSubexp (Star r) = NumSubexp r"
| "NumSubexp (Lazy r) = NumSubexp r"
| "NumSubexp (Grp n r) = Suc (NumSubexp r)"
| "NumSubexp r = 0"

text \<open>
  The leftmost match: the first start position, from the left, at which the pattern
  matches, with the preferred match there. The result is the input from the start of the
  match, the rest after the match, and the captures.
\<close>

fun leftmost :: "regex \<Rightarrow> string \<Rightarrow> (string \<times> string \<times> caps) option" where
  "leftmost re s =
     (case rmatch re s [] of
        p # _ \<Rightarrow> Some (s, fst p, snd p)
      | [] \<Rightarrow> (case s of [] \<Rightarrow> None | _ # t \<Rightarrow> leftmost re t))"

text \<open>
  \<^verbatim>\<open>(*Regexp).MatchString\<close>: whether the pattern matches anywhere in the string.
\<close>

definition MatchString :: "regex \<Rightarrow> string \<Rightarrow> bool" where
  "MatchString re s = (leftmost re s \<noteq> None)"

text \<open>
  \<^verbatim>\<open>(*Regexp).FindStringSubmatch\<close>: \<^verbatim>\<open>nil\<close> (here \<open>None\<close>) when there is
  no match; otherwise the text of the leftmost match followed by the text of each
  capturing group, the empty string for a group that took no part in the match.
\<close>

definition FindStringSubmatch :: "regex \<Rightarrow> string \<Rightarrow> string list option" where
  "FindStringSubmatch re s =
     (case leftmost re s of
        None \<Rightarrow> None
      | Some (from, rest, c) \<Rightarrow>
          Some (take (length from - length rest) from #
                map (\<lambda>n. case map_of c n of None \<Rightarrow> [] | Some w \<Rightarrow> w) [1 ..< Suc (NumSubexp re)]))"


section \<open>Errors\<close>

text \<open>
  A Go \<^verbatim>\<open>error\<close> value is identified by its message; \<^verbatim>\<open>url.EscapeError\<close> by
  the text it quotes. A run-time panic (an index out of range, a nil pointer) unwinds
  the function; it is modelled as an outcome of its own.
\<close>

datatype error = Error string | EscapeError string | Panic string

section \<open>Package \<^verbatim>\<open>net/url\<close>: query strings\<close>

definition ishex :: "char \<Rightarrow> bool" where
  "ishex c = ((CHR ''0'' \<le> c \<and> c \<le> CHR ''9'') \<or> (CHR ''a'' \<le> c \<and> c \<le> CHR ''f'')
     \<or> (CHR ''A'' \<le> c \<and> c \<le> CHR ''F''))"

definition unhex :: "char \<Rightarrow> nat" where
  "unhex c =
     (if CHR ''0'' \<le> c \<and> c \<le> CHR ''9'' then of_char c - of_char CHR ''0''
      else if CHR ''a'' \<le> c \<and> c \<le> CHR ''f'' then of_char c - of_char CHR ''a'' + 10
      else if CHR ''A'' \<le> c \<and> c \<le> CHR ''F'' then of_char c - of_char CHR ''A'' + 10
      else 0)"

text \<open>
  \<^verbatim>\<open>url.QueryUnescape\<close>: \<^verbatim>\<open>%XY\<close> becomes the byte with hexadecimal code XY,
  \<^verbatim>\<open>+\<close> becomes a space; a \<^verbatim>\<open>%\<close> not followed by two hexadecimal digits is an
  \<^verbatim>\<open>EscapeError\<close> of the offending text (at most three bytes).
\<close>

fun QueryUnescape :: "string \<Rightarrow> error + string" where
  "QueryUnescape [] = Inr []"
| "QueryUnescape (x # xs) =
     (if x = CHR ''%'' then
        (case xs of
           h1 # h2 # rest \<Rightarrow>
             if ishex h1 \<and> ishex h2 then
               (case QueryUnescape rest of
                  Inl e \<Rightarrow> Inl e
                | Inr t \<Rightarrow> Inr (char_of (unhex h1 * 16 + unhex h2) # t))
             else Inl (EscapeError (take 3 (x # xs)))
         | _ \<Rightarrow> Inl (EscapeError (take 3 (x # xs))))
      else
        (case QueryUnescape xs of
           Inl e \<Rightarrow> Inl e
         | Inr t \<Rightarrow> Inr ((if x = CHR ''+'' then CHR '' '' else x) # t)))"

text \<open>
  \<^verbatim>\<open>url.QueryEscape\<close>: letters, digits and \<^verbatim>\<open>- _ . ~\<close> are kept, a space becomes
  \<^verbatim>\<open>+\<close>, every other byte becomes \<^verbatim>\<open>%XY\<close> in upper-case hexadecimal.
\<close>

definition shouldEscape :: "char \<Rightarrow> bool" where
  "shouldEscape c =
     (\<not> ((CHR ''a'' \<le> c \<and> c \<le> CHR ''z'') \<or> (CHR ''A'' \<le> c \<and> c \<le> CHR ''Z'')
         \<or> (CHR ''0'' \<le> c \<and> c \<le> CHR ''9'') \<or> c \<in> set ''-_.~''))"

definition upperhex :: string where
  "upperhex = ''0123456789ABCDEF''"

definition escape_byte :: "char \<Rightarrow> string" where
  "escape_byte c =
     (if c = CHR '' '' then ''+''
      else if shouldEscape c then
        [CHR ''%'', upperhex ! (of_char c div 16), upperhex ! (of_char c mod 16)]
      else [c])"

definition QueryEscape :: "string \<Rightarrow> string" where
  "QueryEscape s = concat (map escape_byte s)"

text \<open>
  \<^verbatim>\<open>url.Values\<close> is a Go map from a key to a list of values. It is modelled as an
  association list with distinct keys. The order of the association list has no
  meaning: wherever the program ranges over the map, the order of the iteration is given
  from outside (see \<open>env\<close> below), as Go leaves it unspecified.
\<close>

type_synonym Values = "(string \<times> string list) list"

text \<open>\<^verbatim>\<open>v[key]\<close>: the values of a key, \<^verbatim>\<open>nil\<close> for a key not in the map.\<close>

definition index :: "Values \<Rightarrow> string \<Rightarrow> string list" where
  "index v k = (case map_of v k of None \<Rightarrow> [] | Some vs \<Rightarrow> vs)"

text \<open>\<^verbatim>\<open>Values.Set\<close>: \<^verbatim>\<open>v[key] = []string{value}\<close>, replacing any existing values.\<close>

definition Set :: "Values \<Rightarrow> string \<Rightarrow> string \<Rightarrow> Values" where
  "Set v k val = AList.update k [val] v"

text \<open>
  \<^verbatim>\<open>Values.Encode\<close>: the keys are sorted; for every key in that order and every value
  of the key, \<^verbatim>\<open>key=value\<close> with both sides escaped is written to a buffer, with
  \<^verbatim>\<open>&\<close> before it unless the buffer is empty.
\<close>

definition Encode :: "Values \<Rightarrow> string" where
  "Encode v =
     (if length v = 0 then []
      else foldl (\<lambda>buf k.
             foldl (\<lambda>buf val.
                 (if length buf > 0 then buf @ ''&'' else buf)
                   @ QueryEscape k @ ''='' @ QueryEscape val)
               buf (index v k))
           [] (sort (map fst v)))"

text \<open>
  \<^verbatim>\<open>strings.Cut\<close> with a one-byte separator: the text before the first separator and
  the text after it (empty when there is no separator).
\<close>

definition Cut :: "string \<Rightarrow> char \<Rightarrow> string \<times> string" where
  "Cut s sep = (takeWhile (\<lambda>c. c \<noteq> sep) s, drop 1 (dropWhile (\<lambda>c. c \<noteq> sep) s))"

lemma Cut_shorter: "s \<noteq> [] \<Longrightarrow> length (snd (Cut s sep)) < length s"
proof -
  assume "s \<noteq> []"
  have "length (dropWhile (\<lambda>c. c \<noteq> sep) s) \<le> length s"
    by (rule length_dropWhile_le)
  with \<open>s \<noteq> []\<close> show ?thesis
    by (cases s) (auto simp: Cut_def)
qed

text \<open>
  \<^verbatim>\<open>url.ParseQuery\<close> (Go 1.17 and later): the query is cut at every \<^verbatim>\<open>&\<close>; a
  piece with a semicolon is an error, an empty piece is skipped, every other piece is cut
  at its first \<^verbatim>\<open>=\<close> into key and value, both are unescaped and the value is appended
  to the values of the key. The map of the valid pieces is returned together with the
  first error.
\<close>

function parseQuery :: "Values \<Rightarrow> error option \<Rightarrow> string \<Rightarrow> Values \<times> error option" where
  "parseQuery m err query =
     (if query = [] then (m, err)
      else
        let key = fst (Cut query CHR ''&''); query' = snd (Cut query CHR ''&'') in
        if CHR '';'' \<in> set key then
          parseQuery m (Some (Error ''invalid semicolon separator in query'')) query'
        else if key = [] then parseQuery m err query'
        else
          let val = snd (Cut key CHR ''=''); key = fst (Cut key CHR ''='') in
          (case QueryUnescape key of
             Inl err1 \<Rightarrow> parseQuery m (if err = None then Some err1 else err) query'
           | Inr key \<Rightarrow>
               (case QueryUnescape val of
                  Inl err1 \<Rightarrow> parseQuery m (if err = None then Some err1 else err) query'
                | Inr val \<Rightarrow> parseQuery (AList.update key (index m key @ [val]) m) err query')))"
  by pat_completeness auto
termination
  by (relation "measure (\<lambda>(m, err, query). length query)") (auto simp: Cut_shorter)

declare parseQuery.simps [simp del]

definition ParseQuery :: "string \<Rightarrow> Values \<times> error option" where
  "ParseQuery query = parseQuery [] None query"


section \<open>Other library functions\<close>

text \<open>\<^verbatim>\<open>strings.Split\<close> with a one-byte separator.\<close>

primrec split_from :: "char \<Rightarrow> string \<Rightarrow> string \<Rightarrow> string list" where
  "split_from sep cur [] = [cur]"
| "split_from sep cur (x # xs) =
     (if x = sep then cur # split_from sep [] xs else split_from sep (cur @ [x]) xs)"

definition Split :: "string \<Rightarrow> char \<Rightarrow> string list" where
  "Split s sep = split_from sep [] s"

text \<open>
  \<^verbatim>\<open>time.Duration\<close> is a signed 64-bit number of nanoseconds; a product of durations
  wraps around. \<^verbatim>\<open>time.Second\<close> is a thousand million nanoseconds.
\<close>

definition int64 :: "int \<Rightarrow> int" where
  "int64 x = (x + 2 ^ 63) mod 2 ^ 64 - 2 ^ 63"

definition Second :: int where
  "Second = 1000000000"

section \<open>The data of package \<^verbatim>\<open>runner\<close>\<close>

record URLCategoriesRegex =
  JS :: regex
  DOC :: regex
  DATA :: regex
  STYLE :: regex
  MEDIA :: regex
  ARCHIVE :: regex

record RiskyParams =
  Param :: string
  Risks :: "string list"

record ReflectedParams =
  Param_refl :: string
  URL_refl :: string

text \<open>
  \<^verbatim>\<open>Options\<close> is declared in another file of the package; these are the fields this
  file reads.
\<close>

record Options =
  C :: bool
  P :: bool
  PV :: bool
  PR :: bool
  Request :: bool
  All :: bool
  Timeout :: int
  Proxy :: string
  UserAgent :: string

text \<open>
  \<^verbatim>\<open>url.URL\<close>. The program reads and writes \<^verbatim>\<open>RawQuery\<close> only; the other
  fields belong to the parser and the printer.
\<close>

record URL =
  Scheme :: string
  Host :: string
  Path :: string
  ForceQuery :: bool
  RawQuery :: string
  Fragment :: string

text \<open>
  The transport and the client that \<^verbatim>\<open>New\<close> configures; the durations are values of
  \<^verbatim>\<open>time.Duration\<close>, in nanoseconds.
\<close>

record http_Transport =
  DialTimeout :: int
  DialKeepAlive :: int
  InsecureSkipVerify :: bool
  Proxy_tr :: "URL option"

record http_Client =
  Timeout_cl :: int
  Transport :: http_Transport

record Runner =
  Options :: Options
  Categories :: URLCategoriesRegex
  Params_cat :: "RiskyParams list"
  Client :: "http_Client option"

record ResultsParams =
  List :: "string list"
  Risky :: "RiskyParams list"
  Reflected :: "ReflectedParams list"

record Results =
  URL :: string
  Category :: string
  StatusCode :: int
  ContentType :: string
  ContentLength :: int
  Params :: ResultsParams
  DOM :: "string list"

text \<open>The zero value of \<^verbatim>\<open>Results\<close>, with which the named result starts.\<close>

definition zero_Results :: Results where
  "zero_Results =
     \<lparr>URL = [], Category = [], StatusCode = 0, ContentType = [], ContentLength = 0,
      Params = \<lparr>List = [], Risky = [], Reflected = []\<rparr>, DOM = []\<rparr>"

section \<open>The world outside the program\<close>

text \<open>
  An outbound request as the program builds it, and what it reads of a response:
  the status code, the first \<^verbatim>\<open>Content-Type\<close> header, the content length, and the
  outcome of reading the whole body. The first \<^verbatim>\<open>Location\<close> header (empty when there
  is none) is what the client reads of a response when it follows a redirect.
\<close>

record http_Request =
  Method :: string
  URL_req :: string
  Header :: "(string \<times> string list) list"
  Body_req :: "string option"

record http_Response =
  StatusCode_res :: int
  ContentType_res :: string
  ContentLength_res :: int
  Location_res :: string
  Body_res :: "error + string"

text \<open>
  What the program takes from outside is a parameter of the model:
  \<^item> \<^verbatim>\<open>url.Parse\<close> and \<^verbatim>\<open>(*URL).String\<close>;
  \<^item> the order in which each of the two \<^verbatim>\<open>range\<close> loops of \<^verbatim>\<open>Process\<close>
    visits the keys of the query map;
  \<^item> \<^verbatim>\<open>(*http.Client).Do\<close>: the answer of the client to a request handed to it,
    which may depend on the requests handed to it before (what the client itself does
    with a request, redirects included, is modelled in its own section below);
  \<^item> the catalog file: its path \<^verbatim>\<open>params.File()\<close>, \<^verbatim>\<open>ioutil.ReadFile\<close> and
    \<^verbatim>\<open>json.Unmarshal\<close> (the entries decoded, and the error if any);
  \<^item> the lower-casing of text beyond ASCII, \<^verbatim>\<open>strings.Map(unicode.ToLower, s)\<close>, which
    rests on the case tables of Unicode.
\<close>

record env =
  url_Parse :: "string \<Rightarrow> error + URL"
  URL_String :: "URL \<Rightarrow> string"
  range_params :: "string list \<Rightarrow> string list"
  range_probe :: "string list \<Rightarrow> string list"
  client_Do :: "http_Client \<Rightarrow> http_Request list \<Rightarrow> http_Request \<Rightarrow> error + http_Response"
  params_File :: string
  ReadFile :: "string \<Rightarrow> error + string"
  json_Unmarshal :: "string \<Rightarrow> RiskyParams list \<times> error option"
  Map_unicode_ToLower :: "string \<Rightarrow> string"

text \<open>
  \<^verbatim>\<open>strings.ToLower\<close>: when every byte of the string is ASCII, the letters A to Z are
  mapped to lower case and the other bytes are kept; otherwise the result is
  \<^verbatim>\<open>strings.Map(unicode.ToLower, s)\<close>.
\<close>

definition isASCII :: "string \<Rightarrow> bool" where
  "isASCII s = list_all (\<lambda>c. of_char c < (0x80 :: nat)) s"

definition lower_byte :: "char \<Rightarrow> char" where
  "lower_byte c =
     (if CHR ''A'' \<le> c \<and> c \<le> CHR ''Z'' then char_of (of_char c + (32 :: nat)) else c)"

definition ToLower :: "env \<Rightarrow> string \<Rightarrow> string" where
  "ToLower env s = (if isASCII s then map lower_byte s else Map_unicode_ToLower env s)"

section \<open>The patterns\<close>

primrec alts :: "regex list \<Rightarrow> regex" where
  "alts [] = Str []"
| "alts (r # rs) = (if rs = [] then r else Alt r (alts rs))"

primrec seqs :: "regex list \<Rightarrow> regex" where
  "seqs [] = Str []"
| "seqs (r # rs) = (if rs = [] then r else Seq r (seqs rs))"

text \<open>\<^verbatim>\<open>x?\<close>: \<^verbatim>\<open>x\<close> or nothing, preferring \<^verbatim>\<open>x\<close>.\<close>

definition Opt :: "regex \<Rightarrow> regex" where
  "Opt r = Alt r (Str [])"

text \<open>
  The category patterns all have the form \<^verbatim>\<open>(?m).*?\.(e1|...|en)(\?.*?|)$\<close>.
\<close>

definition ext_pattern :: "string list \<Rightarrow> regex" where
  "ext_pattern exts =
     seqs [Lazy Dot, Str ''.'', Grp 1 (alts (map Str exts)),
           Grp 2 (Alt (Seq (Str ''?'') (Lazy Dot)) (Str [])), EOL]"

text \<open>
  The DOM pattern of \<^verbatim>\<open>Process\<close>, as the source has it between back quotes:

  \<^verbatim>\<open>/((src|href|data|location|code|value|action)\s*["'\]]*\s*\+?\s*=)|((replace|assign|navigate|getResponseHeader|open(Dialog)?|showModalDialog|eval|evaluate|execCommand|execScript|setTimeout|setInterval)\s*["'\]]*\s*\()/\<close>

  The slash at each end is part of the pattern, a literal byte. Alternation
  binds weakest, so the first slash belongs to the left alternative and the last slash
  to the right one. \<^verbatim>\<open>\s\<close> is tab, newline, form feed, carriage return or space.
\<close>

definition space :: regex where
  "space = Cls [CHR 0x09, CHR 0x0A, CHR 0x0C, CHR 0x0D, CHR 0x20]"

definition quote :: regex where
  "quote = Cls [CHR 0x22, CHR 0x27, CHR '']'']"

definition domXSS :: regex where
  "domXSS =
     Alt
       (Seq (Str ''/'')
         (Grp 1 (seqs
           [Grp 2 (alts (map Str [''src'', ''href'', ''data'', ''location'', ''code'', ''value'', ''action''])),
            Star space, Star quote, Star space, Opt (Str ''+''), Star space, Str ''=''])))
       (Seq
         (Grp 3 (seqs
           [Grp 4 (alts
              [Str ''replace'', Str ''assign'', Str ''navigate'', Str ''getResponseHeader'',
               Seq (Str ''open'') (Opt (Grp 5 (Str ''Dialog''))), Str ''showModalDialog'',
               Str ''eval'', Str ''evaluate'', Str ''execCommand'', Str ''execScript'',
               Str ''setTimeout'', Str ''setInterval'']),
            Star space, Star quote, Star space, Str ''('']))
         (Str ''/''))"

text \<open>The probe marker of \<^verbatim>\<open>Process\<close>.\<close>

definition payload :: string where
  "payload = ''iy3j4h234hjb23234''"

definition MethodGet :: string where
  "MethodGet = ''GET''"

section \<open>\<^verbatim>\<open>New\<close>\<close>

text \<open>
  \<^verbatim>\<open>newRegex\<close> is declared in another file of the package; it compiles its argument,
  and for each of the six constant patterns the result is the pattern in compiled form
  (the error result is dropped by \<^verbatim>\<open>New\<close>).
\<close>

definition New :: "env \<Rightarrow> Options \<Rightarrow> Runner \<times> error option" where
  "New env options =
     (let runner = \<lparr>Options = options,
            Categories =
              \<lparr>JS = ext_pattern [''js''],
               DOC = ext_pattern [''pdf'', ''xlsx'', ''doc'', ''docx'', ''txt''],
               DATA = ext_pattern [''json'', ''xml'', ''csv''],
               STYLE = ext_pattern [''css''],
               MEDIA = ext_pattern [''jpg'', ''jpeg'', ''png'', ''ico'', ''svg'', ''gif'', ''webp'',
                 ''mp3'', ''mp4'', ''woff'', ''woff2'', ''ttf'', ''eot'', ''tif'', ''tiff''],
               ARCHIVE = ext_pattern [''zip'', ''tar'', ''tar.gz'']\<rparr>,
            Params_cat = [], Client = None\<rparr>
      in
      case ReadFile env (params_File env) of
        Inl err \<Rightarrow> (runner, Some err)
      | Inr raw \<Rightarrow>
          (case json_Unmarshal env raw of
             (ps, Some err) \<Rightarrow> (runner\<lparr>Params_cat := ps\<rparr>, Some err)
           | (ps, None) \<Rightarrow>
               let runner = runner\<lparr>Params_cat := ps\<rparr>;
                   tr = \<lparr>DialTimeout = int64 (Timeout (Options runner) * Second),
                         DialKeepAlive = Second,
                         InsecureSkipVerify = True, Proxy_tr = None\<rparr>;
                   tr = (if Proxy (Options runner) \<noteq> [] then
                           (case url_Parse env (Proxy (Options runner)) of
                              Inr p \<Rightarrow> tr\<lparr>Proxy_tr := Some p\<rparr>
                            | Inl err \<Rightarrow> tr)
                         else tr);
                   runner = runner\<lparr>Client :=
                     Some \<lparr>Timeout_cl = int64 (Timeout (Options runner) * Second),
                           Transport = tr\<rparr>\<rparr>
               in (runner, None)))"


section \<open>\<^verbatim>\<open>httpRequest\<close>\<close>

text \<open>
  \<^verbatim>\<open>http.NewRequest(method, URL, nil)\<close> parses the URL and fails when that fails;
  the request it returns has the method, the URL, no header and no body. (It also
  rejects an invalid method; every call of this program passes \<^verbatim>\<open>http.MethodGet\<close>.)
\<close>

definition http_NewRequest :: "env \<Rightarrow> string \<Rightarrow> string \<Rightarrow> error + http_Request" where
  "http_NewRequest env method url =
     (case url_Parse env url of
        Inl err \<Rightarrow> Inl err
      | Inr u \<Rightarrow> Inr \<lparr>Method = method, URL_req = url, Header = [], Body_req = None\<rparr>)"

text \<open>
  The function gets the requests sent so far and returns them with the new one added
  when it hands a request to the client. A nil client panics.
\<close>

definition httpRequest ::
  "env \<Rightarrow> Runner \<Rightarrow> http_Request list \<Rightarrow> string \<Rightarrow> string \<Rightarrow> http_Client option
     \<Rightarrow> (error + http_Response) \<times> http_Request list" where
  "httpRequest env runner sent url method client =
     (case http_NewRequest env method url of
        Inl err \<Rightarrow> (Inl err, sent)
      | Inr req \<Rightarrow>
          let req = req\<lparr>Header :=
                AList.update ''User-Agent'' [UserAgent (Options runner)] (Header req)\<rparr>
          in
          (case client of
             None \<Rightarrow> (Inl (Panic ''nil pointer dereference''), sent)
           | Some cl \<Rightarrow> (client_Do env cl sent req, sent @ [req])))"

section \<open>\<^verbatim>\<open>categorize\<close>\<close>

definition categorize :: "Runner \<Rightarrow> string \<Rightarrow> string \<times> error option" where
  "categorize runner url =
     (let category = [];
          category = (if MatchString (JS (Categories runner)) url then ''js'' else category);
          category = (if category = [] then
             (if MatchString (DOC (Categories runner)) url then ''doc'' else category)
             else category);
          category = (if category = [] then
             (if MatchString (DATA (Categories runner)) url then ''data'' else category)
             else category);
          category = (if category = [] then
             (if MatchString (STYLE (Categories runner)) url then ''style'' else category)
             else category);
          category = (if category = [] then
             (if MatchString (MEDIA (Categories runner)) url then ''media'' else category)
             else category);
          category = (if category = [] then
             (if MatchString (ARCHIVE (Categories runner)) url then ''archive'' else category)
             else category);
          category = (if category = [] then ''endpoint'' else category)
      in (category, None))"

section \<open>\<^verbatim>\<open>Process\<close>\<close>

text \<open>
  Lines 139 to 144: the scan of the catalog for one parameter, which appends the first
  entry whose name equals the parameter's in lower case, and breaks.
\<close>

primrec risky_loop ::
  "env \<Rightarrow> RiskyParams list \<Rightarrow> string \<Rightarrow> RiskyParams list \<Rightarrow> RiskyParams list" where
  "risky_loop env [] parameter risky = risky"
| "risky_loop env (e # es) parameter risky =
     (if ToLower env (Param e) = ToLower env parameter then risky @ [e]
      else risky_loop env es parameter risky)"

text \<open>Lines 134 to 145: the loop over the parameters, in the order of the iteration.\<close>

primrec params_loop :: "env \<Rightarrow> Runner \<Rightarrow> string list \<Rightarrow> Results \<Rightarrow> Results" where
  "params_loop env runner [] results = results"
| "params_loop env runner (parameter # rest) results =
     params_loop env runner rest
       (results\<lparr>Params := (Params results)
          \<lparr>List := List (Params results) @ [parameter],
           Risky := risky_loop env (Params_cat runner) parameter (Risky (Params results))\<rparr>\<rparr>)"

text \<open>
  Lines 152 to 179: the probes, in the order of the iteration. The state of the loop
  is the query map, the parsed URL, the results and the requests sent so far; the loop
  ends early with an error. \<^verbatim>\<open>value\<close> is the list the map holds for the parameter when
  its turn comes; \<^verbatim>\<open>value[0]\<close> panics on an empty list.
\<close>

fun reflect_loop ::
  "env \<Rightarrow> Runner \<Rightarrow> string list \<Rightarrow> Values \<times> URL \<times> Results \<times> http_Request list
     \<Rightarrow> Values \<times> URL \<times> Results \<times> http_Request list \<times> error option" where
  "reflect_loop env runner [] (query, parsedURL, results, sent) =
     (query, parsedURL, results, sent, None)"
| "reflect_loop env runner (parameter # rest) (query, parsedURL, results, sent) =
     (case index query parameter of
        [] \<Rightarrow> (query, parsedURL, results, sent, Some (Panic ''index out of range''))
      | tmp # _ \<Rightarrow>
          let query = Set query parameter payload;
              parsedURL = parsedURL\<lparr>RawQuery := Encode query\<rparr>
          in
          (case httpRequest env runner sent (URL_String env parsedURL) MethodGet (Client runner) of
             (Inl err, sent) \<Rightarrow> (query, parsedURL, results, sent, Some err)
           | (Inr res, sent) \<Rightarrow>
               (case Body_res res of
                  Inl err \<Rightarrow> (query, parsedURL, results, sent, Some err)
                | Inr body \<Rightarrow>
                    let results =
                          (if FindStringSubmatch (Str payload) body \<noteq> None then
                             results\<lparr>Params := (Params results)
                               \<lparr>Reflected := Reflected (Params results) @
                                  [\<lparr>Param_refl = parameter,
                                    URL_refl = URL_String env parsedURL\<rparr>]\<rparr>\<rparr>
                           else results);
                        query = Set query parameter tmp
                    in reflect_loop env runner rest (query, parsedURL, results, sent))))"

text \<open>Lines 184 to 209: the request for the page itself.\<close>

definition request_stage ::
  "env \<Rightarrow> Runner \<Rightarrow> URL \<Rightarrow> Results \<Rightarrow> http_Request list
     \<Rightarrow> Results \<times> error option \<times> http_Request list" where
  "request_stage env runner parsedURL results sent =
     (case httpRequest env runner sent (URL_String env parsedURL) MethodGet (Client runner) of
        (Inl err, sent) \<Rightarrow> (results, Some err, sent)
      | (Inr res, sent) \<Rightarrow>
          (case Body_res res of
             Inl err \<Rightarrow> (results, Some err, sent)
           | Inr body \<Rightarrow>
               let results =
                     (if Category results = ''js'' \<or> Category results = ''endpoint'' then
                        (case FindStringSubmatch domXSS body of
                           None \<Rightarrow> results
                         | Some match \<Rightarrow> results\<lparr>DOM := DOM results @ match\<rparr>)
                      else results);
                   results = results
                     \<lparr>StatusCode := StatusCode_res res,
                      ContentType := Split (ContentType_res res) CHR '';'' ! 0,
                      ContentLength := ContentLength_res res\<rparr>
               in (results, None, sent)))"

text \<open>
  Lines 131 to 211, after the URL and the query have been parsed: the two loops over the
  query (when it has a parameter) and the request for the page.
\<close>

definition Process_stages ::
  "env \<Rightarrow> Runner \<Rightarrow> Values \<Rightarrow> URL \<Rightarrow> Results \<Rightarrow> Results \<times> error option \<times> http_Request list" where
  "Process_stages env runner query parsedURL results =
     (let opts = Options runner;
          (query, parsedURL, results, sent, err) =
            (if length query > 0 then
               let results =
                     (if P opts \<or> PV opts \<or> All opts then
                        params_loop env runner (range_params env (map fst query)) results
                      else results)
               in
               if P opts \<or> PR opts \<or> All opts then
                 reflect_loop env runner (range_probe env (map fst query))
                   (query, parsedURL, results, [])
               else (query, parsedURL, results, [], None)
             else (query, parsedURL, results, [], None))
      in
      case err of
        Some e \<Rightarrow> (results, Some e, sent)
      | None \<Rightarrow>
          if Request opts \<or> All opts then request_stage env runner parsedURL results sent
          else (results, None, sent))"

text \<open>
  \<^verbatim>\<open>Process\<close> returns its named results, the record \<^verbatim>\<open>results\<close> as it stands and
  the error; the requests sent are returned with them.
\<close>

definition Process :: "env \<Rightarrow> Runner \<Rightarrow> string \<Rightarrow> Results \<times> error option \<times> http_Request list" where
  "Process env runner url =
     (let results = zero_Results in
      case url_Parse env url of
        Inl err \<Rightarrow> (results, Some err, [])
      | Inr parsedURL \<Rightarrow>
          let results = results\<lparr>URL := URL_String env parsedURL\<rparr>;
              (results, err) =
                (if C (Options runner) \<or> All (Options runner) then
                   (results\<lparr>Category := fst (categorize runner url)\<rparr>, snd (categorize runner url))
                 else (results, None))
          in
          (case err of
             Some e \<Rightarrow> (results, Some e, [])
           | None \<Rightarrow>
               (case QueryUnescape (URL results) of
                  Inl err \<Rightarrow> (results, Some err, [])
                | Inr queryUnescaped \<Rightarrow>
                    (case url_Parse env queryUnescaped of
                       Inl err \<Rightarrow> (results, Some err, [])
                     | Inr parsedURL \<Rightarrow>
                         (case ParseQuery (RawQuery parsedURL) of
                            (query, Some err) \<Rightarrow> (results, Some err, [])
                          | (query, None) \<Rightarrow>
                              Process_stages env runner query parsedURL results)))))"


section \<open>Package \<^verbatim>\<open>net/http\<close>: the client and its redirects\<close>

text \<open>
  The client that \<^verbatim>\<open>New\<close> builds has no \<^verbatim>\<open>CheckRedirect\<close> function and no cookie
  jar. \<^verbatim>\<open>(*Client).Do\<close> hands the request to the transport; when the answer is a
  redirect with a \<^verbatim>\<open>Location\<close>, the client builds a request for the new location itself
  and hands it to the transport, and so on, up to ten requests. What the client takes
  from outside is a parameter of this model:
  \<^item> \<^verbatim>\<open>RoundTrip\<close>: the answer of the transport to a request, which may depend on the
    requests that reached the transport before it;
  \<^item> \<^verbatim>\<open>req.URL.Parse(loc)\<close>: the location resolved against the URL of the request, in
    printed form;
  \<^item> the scheme of a URL, and the printed form of a URL without its user information;
  \<^item> whether the headers that carry credentials are copied to the next request, which
    depends on the domains of the URLs.
\<close>

record wire =
  RoundTrip :: "http_Request list \<Rightarrow> http_Request \<Rightarrow> error + http_Response"
  URL_Parse_ref :: "string \<Rightarrow> string \<Rightarrow> error + string"
  URL_Scheme :: "string \<Rightarrow> string"
  URL_String_no_User :: "string \<Rightarrow> string"
  copy_credentials :: "string \<Rightarrow> string \<Rightarrow> bool"

text \<open>\<^verbatim>\<open>Header.Get\<close>: the first value of a key, empty when the key has none.\<close>

definition Header_Get :: "(string \<times> string list) list \<Rightarrow> string \<Rightarrow> string" where
  "Header_Get h k = (case map_of h k of Some (v # vs) \<Rightarrow> v | _ \<Rightarrow> [])"

text \<open>
  \<^verbatim>\<open>redirectBehavior\<close>: the method of the next request and whether there is one. The
  requests of this model have no \<^verbatim>\<open>GetBody\<close> function (\<^verbatim>\<open>http.NewRequest\<close> sets none
  for a nil body), so that after 307 and 308 a first request with a body is not
  redirected.
\<close>

definition redirectBehavior :: "string \<Rightarrow> http_Response \<Rightarrow> http_Request \<Rightarrow> string \<times> bool" where
  "redirectBehavior reqMethod resp ireq =
     (if StatusCode_res resp \<in> {301, 302, 303} then
        (if reqMethod \<noteq> ''GET'' \<and> reqMethod \<noteq> ''HEAD'' then ''GET'' else reqMethod, True)
      else if StatusCode_res resp \<in> {307, 308} then
        (reqMethod, Body_req ireq = None)
      else ([], False))"

text \<open>
  The headers of the next request: those of the first request, except that the headers
  with credentials are copied only when the domains allow it.
\<close>

definition copyHeaders ::
  "wire \<Rightarrow> http_Request \<Rightarrow> string \<Rightarrow> (string \<times> string list) list" where
  "copyHeaders w ireq dest =
     filter (\<lambda>(k, vv).
         if k \<in> set [''Authorization'', ''Www-Authenticate'', ''Cookie'', ''Cookie2'',
                      ''Proxy-Authorization'', ''Proxy-Authenticate'']
         then copy_credentials w (URL_req ireq) dest else True)
       (Header ireq)"

text \<open>
  \<^verbatim>\<open>refererForURL\<close>: no referer from https to http; otherwise the referer that the
  request already names, or else the URL of the last request without its user
  information.
\<close>

definition refererForURL :: "wire \<Rightarrow> string \<Rightarrow> string \<Rightarrow> string \<Rightarrow> string" where
  "refererForURL w lastReq newReq explicitRef =
     (if URL_Scheme w lastReq = ''https'' \<and> URL_Scheme w newReq = ''http'' then []
      else if explicitRef \<noteq> [] then explicitRef
      else URL_String_no_User w lastReq)"

text \<open>
  The loop of \<^verbatim>\<open>(*Client).do\<close>. Its state is the first request \<open>ireq\<close>, the requests
  \<open>reqs\<close> of this call that reached the transport, and the request \<open>req\<close> to send next;
  \<open>earlier\<close> are the requests that reached the transport in earlier calls. It returns
  what \<^verbatim>\<open>Do\<close> returns and the requests of this call. The check of the redirect is
  \<^verbatim>\<open>defaultCheckRedirect\<close>, which stops after ten requests.
\<close>

function do_loop ::
  "wire \<Rightarrow> http_Request \<Rightarrow> http_Request list \<Rightarrow> http_Request list \<Rightarrow> http_Request
     \<Rightarrow> (error + http_Response) \<times> http_Request list" where
  "do_loop w ireq earlier reqs req =
     (case RoundTrip w (earlier @ reqs) req of
        Inl err \<Rightarrow> (Inl err, reqs @ [req])
      | Inr resp \<Rightarrow>
          if \<not> snd (redirectBehavior (Method req) resp ireq) then (Inr resp, reqs @ [req])
          else if Location_res resp = [] then (Inr resp, reqs @ [req])
          else
            (case URL_Parse_ref w (URL_req req) (Location_res resp) of
               Inl err \<Rightarrow> (Inl (Error ''failed to parse Location header''), reqs @ [req])
             | Inr u \<Rightarrow>
                 if length (reqs @ [req]) \<ge> 10 then
                   (Inl (Error ''stopped after 10 redirects''), reqs @ [req])
                 else
                   do_loop w ireq earlier (reqs @ [req])
                     (let next = \<lparr>Method = fst (redirectBehavior (Method req) resp ireq),
                                   URL_req = u, Header = copyHeaders w ireq u,
                                   Body_req = None\<rparr>;
                          ref = refererForURL w (URL_req req) u
                                  (Header_Get (Header next) ''Referer'')
                      in if ref \<noteq> [] then
                           next\<lparr>Header := AList.update ''Referer'' [ref] (Header next)\<rparr>
                         else next)))"
  by pat_completeness auto
termination
  by (relation "measure (\<lambda>(w, ireq, earlier, reqs, req). 10 - length reqs)") auto

declare do_loop.simps [simp del]

text \<open>\<^verbatim>\<open>(*Client).Do\<close> for a request, after the requests that reached the transport.\<close>

definition Client_Do ::
  "wire \<Rightarrow> http_Request list \<Rightarrow> http_Request \<Rightarrow> (error + http_Response) \<times> http_Request list" where
  "Client_Do w earlier req = do_loop w req earlier [] req"

text \<open>
  The requests that reach the transport when the requests of a list are handed to the
  client one after the other.
\<close>

definition wire_log :: "wire \<Rightarrow> http_Request list \<Rightarrow> http_Request list" where
  "wire_log w sent = foldl (\<lambda>log req. log @ snd (Client_Do w log req)) [] sent"

text \<open>A world in which the client is this client, over the given transport.\<close>

definition wired :: "wire \<Rightarrow> env \<Rightarrow> env" where
  "wired w env = env\<lparr>client_Do := \<lambda>cl sent req. fst (Client_Do w (wire_log w sent) req)\<rparr>"

section \<open>A test double for the world\<close>

text \<open>
  For the examples: a parser and a printer for absolute URLs of the form
  \<^verbatim>\<open>scheme://host/path?query#fragment\<close> (no user information, nothing to escape in
  the path), on which they agree with \<^verbatim>\<open>net/url\<close>; like \<^verbatim>\<open>url.Parse\<close>, the parser
  rejects a URL with an ASCII control character.
\<close>

definition test_Parse :: "string \<Rightarrow> error + URL" where
  "test_Parse s =
     (if list_ex (\<lambda>c. c < CHR 0x20 \<or> c = CHR 0x7F) s then
        Inl (Error ''net/url: invalid control character in URL'')
      else
        let frag = snd (Cut s CHR ''#''); s1 = fst (Cut s CHR ''#'');
            q = snd (Cut s1 CHR ''?''); s2 = fst (Cut s1 CHR ''?'');
            after = drop 2 (snd (Cut s2 CHR '':''))
        in Inr \<lparr>Scheme = fst (Cut s2 CHR '':''),
                Host = takeWhile (\<lambda>c. c \<noteq> CHR ''/'') after,
                Path = dropWhile (\<lambda>c. c \<noteq> CHR ''/'') after,
                ForceQuery = (CHR ''?'' \<in> set s1 \<and> q = []),
                RawQuery = q, Fragment = frag\<rparr>)"

definition test_String :: "URL \<Rightarrow> string" where
  "test_String u =
     Scheme u @ ''://'' @ Host u @ Path u
       @ (if ForceQuery u \<or> RawQuery u \<noteq> [] then ''?'' @ RawQuery u else [])
       @ (if Fragment u \<noteq> [] then ''#'' @ Fragment u else [])"

text \<open>
  The world of the examples: both loops visit the keys in the order of their first
  occurrence in the query; the catalog file holds the given entries.
\<close>

text \<open>
  The lower-casing of the examples, for valid UTF-8 text of ASCII and Latin-1 Supplement
  characters, on which it agrees with \<^verbatim>\<open>strings.ToLower\<close>: the upper-case letters
  U+00C0 to U+00DE but U+00D7, which are the bytes C3 80 to C3 9E but C3 97, are moved
  32 up.
\<close>

fun latin1_ToLower :: "string \<Rightarrow> string" where
  "latin1_ToLower (c # d # s) =
     (if c = CHR 0xC3 \<and> CHR 0x80 \<le> d \<and> d \<le> CHR 0x9E \<and> d \<noteq> CHR 0x97
      then c # char_of (of_char d + (32 :: nat)) # latin1_ToLower s
      else lower_byte c # latin1_ToLower (d # s))"
| "latin1_ToLower s = map lower_byte s"

definition test_env ::
  "(http_Client \<Rightarrow> http_Request list \<Rightarrow> http_Request \<Rightarrow> error + http_Response)
     \<Rightarrow> RiskyParams list \<Rightarrow> env" where
  "test_env do catalog =
     \<lparr>url_Parse = test_Parse, URL_String = test_String,
      range_params = (\<lambda>ks. ks), range_probe = (\<lambda>ks. ks),
      client_Do = do, params_File = ''params.json'',
      ReadFile = (\<lambda>f. Inr []), json_Unmarshal = (\<lambda>raw. (catalog, None)),
      Map_unicode_ToLower = latin1_ToLower\<rparr>"

text \<open>A server that answers every request with the same body.\<close>

definition static_Do ::
  "string \<Rightarrow> http_Client \<Rightarrow> http_Request list \<Rightarrow> http_Request \<Rightarrow> error + http_Response" where
  "static_Do body cl sent req =
     Inr \<lparr>StatusCode_res = 200, ContentType_res = ''text/html; charset=utf-8'',
          ContentLength_res = int (length body), Location_res = [], Body_res = Inr body\<rparr>"

text \<open>A server that echoes the URL of the request in the body.\<close>

definition echo_Do ::
  "http_Client \<Rightarrow> http_Request list \<Rightarrow> http_Request \<Rightarrow> error + http_Response" where
  "echo_Do cl sent req = static_Do (URL_req req) cl sent req"

text \<open>A network on which every request fails.\<close>

definition down_Do ::
  "http_Client \<Rightarrow> http_Request list \<Rightarrow> http_Request \<Rightarrow> error + http_Response" where
  "down_Do cl sent req = Inl (Error ''connection refused'')"

text \<open>A network that answers the first request like the echo server and then fails.\<close>

definition once_Do ::
  "http_Client \<Rightarrow> http_Request list \<Rightarrow> http_Request \<Rightarrow> error + http_Response" where
  "once_Do cl sent req = (if sent = [] then echo_Do cl sent req else down_Do cl sent req)"

text \<open>
  A transport for the examples: the server sends every request to \<^verbatim>\<open>/login\<close> with
  status 302, and answers the request for \<^verbatim>\<open>/login\<close> with a page. A location that
  starts with a slash is resolved against the scheme and the host of the request; the
  URLs of the examples have no user information.
\<close>

definition login_wire :: wire where
  "login_wire =
     \<lparr>RoundTrip = (\<lambda>earlier req.
         case test_Parse (URL_req req) of
           Inl err \<Rightarrow> Inl err
         | Inr u \<Rightarrow>
             if Path u = ''/login'' then
               Inr \<lparr>StatusCode_res = 200, ContentType_res = ''text/html'',
                    ContentLength_res = 5, Location_res = [], Body_res = Inr ''login''\<rparr>
             else
               Inr \<lparr>StatusCode_res = 302, ContentType_res = [],
                    ContentLength_res = 0, Location_res = ''/login'', Body_res = Inr []\<rparr>),
      URL_Parse_ref = (\<lambda>base loc.
         case test_Parse base of
           Inl err \<Rightarrow> Inl err
         | Inr u \<Rightarrow> if take 1 loc = ''/'' then Inr (Scheme u @ ''://'' @ Host u @ loc)
                    else Inr loc),
      URL_Scheme = (\<lambda>url. fst (Cut url CHR '':'')),
      URL_String_no_User = (\<lambda>url. url),
      copy_credentials = (\<lambda>initial dest. False)\<rparr>"

text \<open>Options with every stage off, and a runner made by \<^verbatim>\<open>New\<close> in the test world.\<close>

definition test_options :: Options where
  "test_options =
     \<lparr>C = False, P = False, PV = False, PR = False, Request = False, All = False,
      Timeout = 10, Proxy = [], UserAgent = ''sigurlx''\<rparr>"

definition test_runner :: "Options \<Rightarrow> RiskyParams list \<Rightarrow> Runner" where
  "test_runner options catalog = fst (New (test_env down_Do catalog) options)"


section \<open>Specification\<close>

text \<open>
  The classifier as the specification words it: an ordered list of patterns with their
  categories, the first pattern that matches decides, and \<^verbatim>\<open>endpoint\<close> is the
  category when none matches.
\<close>

definition category_patterns :: "Runner \<Rightarrow> (regex \<times> string) list" where
  "category_patterns runner =
     [(JS (Categories runner), ''js''), (DOC (Categories runner), ''doc''),
      (DATA (Categories runner), ''data''), (STYLE (Categories runner), ''style''),
      (MEDIA (Categories runner), ''media''), (ARCHIVE (Categories runner), ''archive'')]"

definition classify :: "Runner \<Rightarrow> string \<Rightarrow> string" where
  "classify runner url =
     (case find (\<lambda>pc. MatchString (fst pc) url) (category_patterns runner) of
        Some pc \<Rightarrow> snd pc
      | None \<Rightarrow> ''endpoint'')"

text \<open>
  Two names are equal when case is ignored. For ASCII names this is said byte by byte:
  the names have the same length, and at every position the bytes are equal or one is
  an upper-case letter and the other is the same letter in lower case, 32 above it. When
  a name has a byte beyond ASCII it is said through the lower-case forms, which are
  equal: the lower-case form of an ASCII name has the letters a to z in the place of A
  to Z, and the lower-case form of any other name is that of Unicode.
\<close>

definition same_letter :: "char \<Rightarrow> char \<Rightarrow> bool" where
  "same_letter x y =
     (x = y
      \<or> (CHR ''A'' \<le> x \<and> x \<le> CHR ''Z'' \<and> of_char y = of_char x + (32 :: nat))
      \<or> (CHR ''A'' \<le> y \<and> y \<le> CHR ''Z'' \<and> of_char x = of_char y + (32 :: nat)))"

definition ascii_lower :: "char \<Rightarrow> char" where
  "ascii_lower c =
     (case map_of (zip ''ABCDEFGHIJKLMNOPQRSTUVWXYZ'' ''abcdefghijklmnopqrstuvwxyz'') c of
        None \<Rightarrow> c
      | Some d \<Rightarrow> d)"

definition lower_case :: "env \<Rightarrow> string \<Rightarrow> string" where
  "lower_case env s = (if isASCII s then map ascii_lower s else Map_unicode_ToLower env s)"

definition equal_ignoring_case :: "env \<Rightarrow> string \<Rightarrow> string \<Rightarrow> bool" where
  "equal_ignoring_case env a b =
     (if isASCII a \<and> isASCII b then list_all2 same_letter a b
      else lower_case env a = lower_case env b)"

text \<open>
  The lookup in the risk catalog as the specification words it: the first entry whose
  name equals the parameter's name when case is ignored, if there is one; and the list
  of what a parameter adds to the risky findings.
\<close>

definition lookupRisk :: "env \<Rightarrow> RiskyParams list \<Rightarrow> string \<Rightarrow> RiskyParams option" where
  "lookupRisk env catalog name = find (\<lambda>e. equal_ignoring_case env (Param e) name) catalog"

definition matched :: "env \<Rightarrow> RiskyParams list \<Rightarrow> string \<Rightarrow> RiskyParams list" where
  "matched env catalog name =
     (case lookupRisk env catalog name of None \<Rightarrow> [] | Some e \<Rightarrow> [e])"

text \<open>
  Percent-encoding of a key or a value of a query: a letter, a digit and the marks
  \<^verbatim>\<open>- _ . ~\<close> stand for themselves, a space is written \<^verbatim>\<open>+\<close>, and every other
  byte is written \<^verbatim>\<open>%\<close> followed by the two digits of its code in hexadecimal, with the
  letters A to F in upper case.
\<close>

definition unreserved :: "char \<Rightarrow> bool" where
  "unreserved c =
     ((CHR ''A'' \<le> c \<and> c \<le> CHR ''Z'') \<or> (CHR ''a'' \<le> c \<and> c \<le> CHR ''z'')
      \<or> (CHR ''0'' \<le> c \<and> c \<le> CHR ''9'')
      \<or> c = CHR ''-'' \<or> c = CHR ''_'' \<or> c = CHR ''.'' \<or> c = CHR ''~'')"

definition hex_digit :: "nat \<Rightarrow> char" where
  "hex_digit n = char_of (if n < 10 then 48 + n else 55 + n)"

definition percent_encoded :: "string \<Rightarrow> string" where
  "percent_encoded s =
     concat (map (\<lambda>c. if unreserved c then [c]
                       else if c = CHR '' '' then ''+''
                       else [CHR ''%'', hex_digit (of_char c div 16),
                             hex_digit (of_char c mod 16)]) s)"

text \<open>
  The encoding of a query with its keys in sorted order: the pairs \<^verbatim>\<open>key=value\<close>
  with key and value percent-encoded, key by key in sorted order and value by value,
  joined by \<^verbatim>\<open>&\<close>. The order of the keys is the order of \<^verbatim>\<open>sort.Strings\<close>, which
  compares strings byte by byte: an upper-case letter comes before every lower-case
  letter.
\<close>

fun Join :: "string list \<Rightarrow> string \<Rightarrow> string" where
  "Join [] sep = []"
| "Join [x] sep = x"
| "Join (x # y # zs) sep = x @ sep @ Join (y # zs) sep"

definition Encode_sorted :: "Values \<Rightarrow> string" where
  "Encode_sorted v =
     Join (concat (map (\<lambda>k. map (\<lambda>val. percent_encoded k @ ''='' @ percent_encoded val)
                              (index v k))
                       (sort (map fst v)))) ''&''"

text \<open>One step of the buffer of \<^verbatim>\<open>Values.Encode\<close>: a pair is written after the others.\<close>

definition write_pair :: "string \<Rightarrow> string \<Rightarrow> string" where
  "write_pair buf x = (if length buf > 0 then buf @ ''&'' else buf) @ x"

text \<open>The request that \<^verbatim>\<open>httpRequest\<close> hands to the client for a GET of a URL.\<close>

definition GET_request :: "Runner \<Rightarrow> string \<Rightarrow> http_Request" where
  "GET_request runner u =
     \<lparr>Method = ''GET'', URL_req = u,
      Header = [(''User-Agent'', [UserAgent (Options runner)])], Body_req = None\<rparr>"

text \<open>A request is the GET request of its URL.\<close>

definition is_GET :: "Runner \<Rightarrow> http_Request \<Rightarrow> bool" where
  "is_GET runner req = (req = GET_request runner (URL_req req))"


text \<open>
  The outcome of a request sent after the requests \<open>sent\<close>: the error of the client
  or of reading the body, or the body.
\<close>

definition outcome ::
  "env \<Rightarrow> http_Client option \<Rightarrow> http_Request list \<Rightarrow> http_Request \<Rightarrow> error + string" where
  "outcome env client sent req =
     (case client of
        None \<Rightarrow> Inl (Panic ''nil pointer dereference'')
      | Some cl \<Rightarrow>
          (case client_Do env cl sent req of
             Inl e \<Rightarrow> Inl e
           | Inr res \<Rightarrow> Body_res res))"

text \<open>
  The error of the first request that fails, among the requests of a list sent one after
  the other after \<open>sent\<close>; \<open>None\<close> when every request is answered.
\<close>

primrec first_failure ::
  "env \<Rightarrow> http_Client option \<Rightarrow> http_Request list \<Rightarrow> http_Request list \<Rightarrow> error option" where
  "first_failure env client sent [] = None"
| "first_failure env client sent (r # rs) =
     (case outcome env client sent r of
        Inl e \<Rightarrow> Some e
      | Inr body \<Rightarrow> first_failure env client (sent @ [r]) rs)"

text \<open>
  The reflected findings of a list of probes, each a parameter with the request sent for
  it: a probe is a finding when its answer contains the marker.
\<close>

primrec findings ::
  "env \<Rightarrow> http_Client option \<Rightarrow> http_Request list \<Rightarrow> (string \<times> http_Request) list
     \<Rightarrow> ReflectedParams list" where
  "findings env client sent [] = []"
| "findings env client sent (pr # prs) =
     (case outcome env client sent (snd pr) of
        Inl e \<Rightarrow> []
      | Inr body \<Rightarrow>
          if FindStringSubmatch (Str payload) body \<noteq> None then
            [\<lparr>Param_refl = fst pr, URL_refl = URL_req (snd pr)\<rparr>]
          else [])
     @ findings env client (sent @ [snd pr]) prs"

text \<open>
  The query maps that the probes encode, one for each parameter in the order of the
  iteration: the map the loop holds at that moment with the parameter set to the marker.
  After a probe the loop sets the parameter to the first of the values it had.
\<close>

primrec probe_queries :: "Values \<Rightarrow> string list \<Rightarrow> Values list" where
  "probe_queries query [] = []"
| "probe_queries query (p # ps) =
     (case index query p of
        [] \<Rightarrow> []
      | tmp # _ \<Rightarrow> Set query p payload # probe_queries (Set query p tmp) ps)"

definition probe_urls :: "env \<Rightarrow> URL \<Rightarrow> Values \<Rightarrow> string list \<Rightarrow> string list" where
  "probe_urls env u query ps =
     map (\<lambda>q. URL_String env (u\<lparr>RawQuery := Encode_sorted q\<rparr>)) (probe_queries query ps)"

text \<open>
  An association list stands for a map that \<^verbatim>\<open>url.ParseQuery\<close> can return when its
  keys are distinct and every key has a value.
\<close>

definition well_formed :: "Values \<Rightarrow> bool" where
  "well_formed m = (distinct (map fst m) \<and> list_all (\<lambda>kv. snd kv \<noteq> []) m)"

text \<open>An iteration over the keys of a map visits every key once.\<close>

definition visits_each_once :: "(string list \<Rightarrow> string list) \<Rightarrow> string list \<Rightarrow> bool" where
  "visits_each_once order ks = (distinct (order ks) \<and> set (order ks) = set ks)"

text \<open>
  The parameters that the listing loop and the probing loop visit: none when the query
  has no parameter or the stage is off, otherwise the keys in the order of the iteration.
\<close>

definition listed :: "env \<Rightarrow> Runner \<Rightarrow> Values \<Rightarrow> string list" where
  "listed env runner query =
     (if length query > 0 \<and> (P (Options runner) \<or> PV (Options runner) \<or> All (Options runner))
      then range_params env (map fst query) else [])"

definition probed :: "env \<Rightarrow> Runner \<Rightarrow> Values \<Rightarrow> string list" where
  "probed env runner query =
     (if length query > 0 \<and> (P (Options runner) \<or> PR (Options runner) \<or> All (Options runner))
      then range_probe env (map fst query) else [])"

text \<open>
  The URL that the request for the page goes to, after probes of the parameters \<open>ps\<close>:
  the parsed URL with the raw query that the last probe left in it.
\<close>

definition page_url :: "env \<Rightarrow> URL \<Rightarrow> Values \<Rightarrow> string list \<Rightarrow> string" where
  "page_url env u query ps =
     URL_String env
       (u\<lparr>RawQuery := last (RawQuery u # map Encode_sorted (probe_queries query ps))\<rparr>)"

text \<open>What the DOM pattern adds to the results for a body, under the gate on the category.\<close>

definition page_DOM :: "Results \<Rightarrow> string \<Rightarrow> string list" where
  "page_DOM results body =
     (if Category results = ''js'' \<or> Category results = ''endpoint'' then
        (case FindStringSubmatch domXSS body of None \<Rightarrow> [] | Some m \<Rightarrow> m)
      else [])"

text \<open>
  The parsing steps of \<^verbatim>\<open>Process\<close> succeed: the input parses to \<open>u0\<close>, its printed
  form unescapes and parses again to \<open>u\<close>, and the raw query of \<open>u\<close> parses to \<open>query\<close>.
\<close>

definition parses :: "env \<Rightarrow> string \<Rightarrow> URL \<Rightarrow> URL \<Rightarrow> Values \<Rightarrow> bool" where
  "parses env url u0 u query =
     (url_Parse env url = Inr u0
      \<and> (case QueryUnescape (URL_String env u0) of
            Inl e \<Rightarrow> False
          | Inr unescaped \<Rightarrow> url_Parse env unescaped = Inr u)
      \<and> ParseQuery (RawQuery u) = (query, None))"

section \<open>The classifier\<close>

lemma categorize_classify: "categorize runner url = (classify runner url, None)"
  by (simp add: categorize_def classify_def category_patterns_def)

lemma New_Categories:
  "Categories (fst (New env options)) =
     \<lparr>JS = ext_pattern [''js''],
      DOC = ext_pattern [''pdf'', ''xlsx'', ''doc'', ''docx'', ''txt''],
      DATA = ext_pattern [''json'', ''xml'', ''csv''],
      STYLE = ext_pattern [''css''],
      MEDIA = ext_pattern [''jpg'', ''jpeg'', ''png'', ''ico'', ''svg'', ''gif'', ''webp'',
        ''mp3'', ''mp4'', ''woff'', ''woff2'', ''ttf'', ''eot'', ''tif'', ''tiff''],
      ARCHIVE = ext_pattern [''zip'', ''tar'', ''tar.gz'']\<rparr>"
  by (simp add: New_def Let_def split: sum.splits prod.splits option.splits)

text \<open>
  C5. \<^verbatim>\<open>categorize\<close> never fails: for every runner and every string it returns a nil
  error and the category of the first pattern that matches, in the order js, doc, data,
  style, media, archive, or \<^verbatim>\<open>endpoint\<close> when no pattern matches; the category is one
  of these seven. For a runner made by \<^verbatim>\<open>New\<close> the patterns are the six extension
  patterns, whether or not the catalog loads.
\<close>

theorem categorize_first_match:
  "categorize runner url = (classify runner url, None)
   \<and> classify runner url
       \<in> set [''js'', ''doc'', ''data'', ''style'', ''media'', ''archive'', ''endpoint'']
   \<and> category_patterns (fst (New env options)) =
       [(ext_pattern [''js''], ''js''),
        (ext_pattern [''pdf'', ''xlsx'', ''doc'', ''docx'', ''txt''], ''doc''),
        (ext_pattern [''json'', ''xml'', ''csv''], ''data''),
        (ext_pattern [''css''], ''style''),
        (ext_pattern [''jpg'', ''jpeg'', ''png'', ''ico'', ''svg'', ''gif'', ''webp'',
           ''mp3'', ''mp4'', ''woff'', ''woff2'', ''ttf'', ''eot'', ''tif'', ''tiff''], ''media''),
        (ext_pattern [''zip'', ''tar'', ''tar.gz''], ''archive'')]"
  by (simp add: categorize_classify classify_def New_Categories category_patterns_def)

section \<open>The risky parameters\<close>

text \<open>
  The comparison of the results of \<^verbatim>\<open>strings.ToLower\<close> is the comparison that ignores
  case.
\<close>

lemma of_char_lower_byte:
  "of_char (lower_byte c) =
     (if CHR ''A'' \<le> c \<and> c \<le> CHR ''Z'' then of_char c + 32 else (of_char c :: nat))"
proof (cases "CHR ''A'' \<le> c \<and> c \<le> CHR ''Z''")
  case True
  then have "(of_char c :: nat) \<le> 90"
    by (simp add: less_eq_char_def)
  then have "(of_char c + 32 :: nat) mod 256 = of_char c + 32"
    by simp
  with True show ?thesis
    by (simp add: lower_byte_def)
next
  case False
  then have "lower_byte c = c" by (auto simp add: lower_byte_def)
  with False show ?thesis by auto
qed

lemma lower_byte_eq: "lower_byte x = lower_byte y \<longleftrightarrow> same_letter x y"
proof -
  have "lower_byte x = lower_byte y
      \<longleftrightarrow> (of_char (lower_byte x) :: nat) = of_char (lower_byte y)"
    by simp
  also have "\<dots> \<longleftrightarrow> same_letter x y"
    unfolding of_char_lower_byte same_letter_def
    by (auto simp: less_eq_char_def)
  finally show ?thesis .
qed

lemma map_lower_byte_eq:
  "map lower_byte a = map lower_byte b \<longleftrightarrow> list_all2 same_letter a b"
  by (simp add: list.rel_map(1,2) lower_byte_eq list.rel_eq [symmetric] del: list.rel_eq)

lemma upper_case_letters:
  "(CHR ''A'' \<le> c \<and> c \<le> CHR ''Z'') = (c \<in> set ''ABCDEFGHIJKLMNOPQRSTUVWXYZ'')"
proof
  assume "c \<in> set ''ABCDEFGHIJKLMNOPQRSTUVWXYZ''"
  moreover have "list_all (\<lambda>c. CHR ''A'' \<le> c \<and> c \<le> CHR ''Z'') ''ABCDEFGHIJKLMNOPQRSTUVWXYZ''"
    by simp
  ultimately show "CHR ''A'' \<le> c \<and> c \<le> CHR ''Z''"
    unfolding list_all_iff by (rule bspec [rotated])
next
  assume r: "CHR ''A'' \<le> c \<and> c \<le> CHR ''Z''"
  then have "(of_char c :: nat) \<in> {65..<91}"
    by (simp add: less_eq_char_def)
  then have "(of_char c :: nat) \<in> set [65..<91]"
    by (simp only: set_upt)
  then have "char_of (of_char c :: nat) \<in> char_of ` set [65..<91]"
    by (rule imageI)
  then have "c \<in> set (map char_of [65..<(91::nat)])"
    by simp
  also have "map char_of [65..<(91::nat)] = ''ABCDEFGHIJKLMNOPQRSTUVWXYZ''"
    by (simp add: upt_rec char_of_eq_iff)
  finally show "c \<in> set ''ABCDEFGHIJKLMNOPQRSTUVWXYZ''" .
qed

lemma lower_byte_ascii_lower: "lower_byte c = ascii_lower c"
proof (cases "c \<in> set ''ABCDEFGHIJKLMNOPQRSTUVWXYZ''")
  case True
  have "list_all (\<lambda>c. lower_byte c = ascii_lower c) ''ABCDEFGHIJKLMNOPQRSTUVWXYZ''"
    by (simp add: lower_byte_def ascii_lower_def char_of_eq_iff)
  with True show ?thesis
    unfolding list_all_iff by (rule bspec [rotated])
next
  case False
  then have m: "map_of (zip ''ABCDEFGHIJKLMNOPQRSTUVWXYZ'' ''abcdefghijklmnopqrstuvwxyz'') c
      = None"
    by simp
  from False have "\<not> (CHR ''A'' \<le> c \<and> c \<le> CHR ''Z'')"
    by (simp only: upper_case_letters not_False_eq_True)
  then have "lower_byte c = c"
    by (simp only: lower_byte_def if_False)
  moreover have "ascii_lower c = c"
    by (simp only: ascii_lower_def m option.case)
  ultimately show ?thesis by simp
qed

lemma ToLower_lower_case: "ToLower env s = lower_case env s"
proof -
  have "lower_byte = ascii_lower"
    by (intro ext) (rule lower_byte_ascii_lower)
  then show ?thesis
    by (simp add: ToLower_def lower_case_def)
qed

lemma ToLower_eq: "ToLower env a = ToLower env b \<longleftrightarrow> equal_ignoring_case env a b"
proof (cases "isASCII a \<and> isASCII b")
  case True
  then show ?thesis
    by (simp add: equal_ignoring_case_def ToLower_def map_lower_byte_eq)
next
  case False
  then have "equal_ignoring_case env a b = (lower_case env a = lower_case env b)"
    by (simp only: equal_ignoring_case_def if_False)
  then show ?thesis
    by (simp only: ToLower_lower_case)
qed

lemma risky_loop_lookup:
  "risky_loop env catalog name risky = risky @ matched env catalog name"
  by (induction catalog) (simp_all add: matched_def lookupRisk_def ToLower_eq)

lemma params_loop_eq:
  "params_loop env runner ps results =
     results\<lparr>Params := (Params results)
       \<lparr>List := List (Params results) @ ps,
        Risky := Risky (Params results) @ concat (map (matched env (Params_cat runner)) ps)\<rparr>\<rparr>"
  by (induction ps arbitrary: results) (simp_all add: risky_loop_lookup)

text \<open>
  C6. The loop over the parameters appends every parameter name to the list and, for
  every parameter in turn, the first catalog entry whose name equals the parameter's
  name when case is ignored; it appends nothing for a parameter that no entry matches,
  and never a second entry for the same parameter.
\<close>

theorem params_loop_first_match:
  "List (Params (params_loop env runner ps results)) = List (Params results) @ ps
   \<and> Risky (Params (params_loop env runner ps results)) =
       Risky (Params results)
       @ concat (map (\<lambda>p. case find (\<lambda>e. equal_ignoring_case env (Param e) p)
                                    (Params_cat runner) of
                              None \<Rightarrow> []
                            | Some e \<Rightarrow> [e]) ps)"
proof -
  have "matched env (Params_cat runner) =
          (\<lambda>p. case find (\<lambda>e. equal_ignoring_case env (Param e) p) (Params_cat runner) of
                  None \<Rightarrow> []
                | Some e \<Rightarrow> [e])"
    by (intro ext) (simp add: matched_def lookupRisk_def)
  then show ?thesis
    by (simp add: params_loop_eq)
qed

section \<open>The parsed query\<close>

text \<open>
  The map that \<^verbatim>\<open>url.ParseQuery\<close> returns has distinct keys, so that its length is the
  number of its keys, and a value for every key, so that \<^verbatim>\<open>value[0]\<close> in the probing
  loop is in range; \<^verbatim>\<open>Values.Set\<close> on a key of the map keeps both, and the keys.
\<close>

lemma set_update_subset: "set (AList.update k v al) \<subseteq> insert (k, v) (set al)"
  by (induction al) auto

lemma well_formed_update:
  "well_formed m \<Longrightarrow> vs \<noteq> [] \<Longrightarrow> well_formed (AList.update k vs m)"
  using set_update_subset [of k vs m]
  by (auto simp: well_formed_def list_all_iff distinct_update)

lemma well_formed_parseQuery:
  "well_formed m \<Longrightarrow> well_formed (fst (parseQuery m err query))"
proof (induction m err query rule: parseQuery.induct)
  case (1 m err query)
  show ?case
  proof (cases "query = []")
    case True
    with "1.prems" show ?thesis by (simp add: parseQuery.simps)
  next
    case False
    let ?key = "fst (Cut query CHR ''&'')"
    let ?rest = "snd (Cut query CHR ''&'')"
    show ?thesis
    proof (cases "CHR '';'' \<in> set ?key")
      case True
      with False "1.IH"(1) "1.prems" show ?thesis
        by (subst parseQuery.simps) (simp add: Let_def)
    next
      case semi: False
      show ?thesis
      proof (cases "?key = []")
        case True
        with False semi "1.IH"(2) "1.prems" show ?thesis
          by (subst parseQuery.simps) (simp add: Let_def)
      next
        case key: False
        let ?k = "fst (Cut ?key CHR ''='')"
        let ?v = "snd (Cut ?key CHR ''='')"
        show ?thesis
        proof (cases "QueryUnescape ?k")
          case (Inl e)
          with False semi key "1.IH"(3) "1.prems" show ?thesis
            by (subst parseQuery.simps) (simp add: Let_def)
        next
          case k: (Inr k)
          show ?thesis
          proof (cases "QueryUnescape ?v")
            case (Inl e)
            with False semi key k "1.IH"(4) "1.prems" show ?thesis
              by (subst parseQuery.simps) (simp add: Let_def)
          next
            case v: (Inr v)
            have "well_formed (AList.update k (index m k @ [v]) m)"
              using "1.prems" by (rule well_formed_update) simp
            with False semi key k v "1.IH"(5) show ?thesis
              by (subst parseQuery.simps) (simp add: Let_def)
          qed
        qed
      qed
    qed
  qed
qed

lemma well_formed_ParseQuery: "well_formed (fst (ParseQuery query))"
  unfolding ParseQuery_def by (rule well_formed_parseQuery) (simp add: well_formed_def)

lemma well_formed_index:
  "well_formed m \<Longrightarrow> k \<in> set (map fst m) \<Longrightarrow> index m k \<noteq> []"
  by (auto simp: well_formed_def list_all_iff index_def split: option.splits
      dest: map_of_SomeD weak_map_of_SomeI)

lemma well_formed_Set: "well_formed m \<Longrightarrow> well_formed (Set m k v)"
  unfolding Set_def by (rule well_formed_update) simp_all

lemma keys_Set: "k \<in> set (map fst m) \<Longrightarrow> map fst (Set m k v) = map fst m"
  by (simp add: Set_def update_keys)

lemma length_probe_queries_well_formed:
  "well_formed query \<Longrightarrow> set ps \<subseteq> set (map fst query) \<Longrightarrow>
   length (probe_queries query ps) = length ps"
proof (induction ps arbitrary: query)
  case Nil
  then show ?case by simp
next
  case (Cons p ps)
  then have "index query p \<noteq> []" by (simp add: well_formed_index)
  then obtain tmp vs where t: "index query p = tmp # vs" by (cases "index query p") auto
  have "well_formed (Set query p tmp)" using Cons.prems(1) by (rule well_formed_Set)
  moreover have "set ps \<subseteq> set (map fst (Set query p tmp))"
    using Cons.prems(2) by (simp add: keys_Set)
  ultimately have "length (probe_queries (Set query p tmp) ps) = length ps"
    by (rule Cons.IH)
  with t show ?case by simp
qed

text \<open>
  \<^verbatim>\<open>strings.Split\<close> returns at least one piece, and the first piece is the text before
  the first separator.
\<close>

lemma split_from_nonempty: "split_from sep cur s \<noteq> []"
  by (induction s arbitrary: cur) simp_all

lemma Split_first: "Split s sep ! 0 = takeWhile (\<lambda>c. c \<noteq> sep) s"
proof -
  have "split_from sep cur s ! 0 = cur @ takeWhile (\<lambda>c. c \<noteq> sep) s" for cur
    by (induction s arbitrary: cur) simp_all
  then show ?thesis by (simp add: Split_def)
qed

section \<open>The encoding of the query\<close>

lemma Join_Cons: "Join (x # xs) sep = x @ concat (map (\<lambda>y. sep @ y) xs)"
  by (induction xs arbitrary: x) simp_all

lemma foldl_write_pair:
  "buf \<noteq> [] \<Longrightarrow> foldl write_pair buf xs = buf @ concat (map (\<lambda>y. ''&'' @ y) xs)"
  by (induction xs arbitrary: buf) (simp_all add: write_pair_def)

lemma foldl_write_pair_Join:
  "\<forall>x \<in> set xs. x \<noteq> [] \<Longrightarrow> foldl write_pair [] xs = Join xs ''&''"
proof (cases xs)
  case Nil
  then show ?thesis by simp
next
  case (Cons x ys)
  assume "\<forall>x \<in> set xs. x \<noteq> []"
  with Cons have "x \<noteq> []" by simp
  then have "foldl write_pair x ys = x @ concat (map (\<lambda>y. ''&'' @ y) ys)"
    by (rule foldl_write_pair)
  with Cons show ?thesis by (simp add: Join_Cons write_pair_def)
qed

lemma foldl_foldl_concat:
  "foldl (\<lambda>buf k. foldl f buf (g k)) buf ks = foldl f buf (concat (map g ks))"
  by (induction ks arbitrary: buf) simp_all

text \<open>
  The escaping of \<^verbatim>\<open>url.QueryEscape\<close> is the percent-encoding, and
  \<^verbatim>\<open>url.QueryUnescape\<close> undoes it.
\<close>

lemma all_nibbles:
  assumes "list_all Q [0..<16]" and "n < 16"
  shows "Q (n :: nat)"
  using assms by (simp add: list_all_iff)

lemma shouldEscape_unreserved: "shouldEscape c = (\<not> unreserved c)"
  by (auto simp: shouldEscape_def unreserved_def)

lemma upperhex_hex_digit: "n < 16 \<Longrightarrow> upperhex ! n = hex_digit n"
  by (rule all_nibbles [where Q = "\<lambda>n. upperhex ! n = hex_digit n"]) (code_simp, assumption)

lemma unreserved_space: "\<not> unreserved CHR '' ''"
  by (simp add: unreserved_def)

lemma QueryEscape_percent_encoded: "QueryEscape s = percent_encoded s"
proof -
  have "escape_byte c =
      (if unreserved c then [c]
       else if c = CHR '' '' then ''+''
       else [CHR ''%'', hex_digit (of_char c div 16), hex_digit (of_char c mod 16)])" for c
  proof -
    have "(of_char c :: nat) < 16 * 16" by simp
    then have "(of_char c :: nat) div 16 < 16" by (rule less_mult_imp_div_less)
    moreover have "(of_char c :: nat) mod 16 < 16" by simp
    ultimately show ?thesis
      using unreserved_space
      by (auto simp: escape_byte_def shouldEscape_unreserved upperhex_hex_digit)
  qed
  then have "escape_byte =
      (\<lambda>c. if unreserved c then [c]
       else if c = CHR '' '' then ''+''
       else [CHR ''%'', hex_digit (of_char c div 16), hex_digit (of_char c mod 16)])"
    by (intro ext)
  then show ?thesis
    by (simp only: QueryEscape_def percent_encoded_def)
qed

lemma ishex_hex_digit: "n < 16 \<Longrightarrow> ishex (hex_digit n)"
  by (rule all_nibbles [where Q = "\<lambda>n. ishex (hex_digit n)"]) (code_simp, assumption)

lemma unhex_hex_digit: "n < 16 \<Longrightarrow> unhex (hex_digit n) = n"
  by (rule all_nibbles [where Q = "\<lambda>n. unhex (hex_digit n) = n"]) (code_simp, assumption)

lemma unreserved_plain: "unreserved c \<Longrightarrow> c \<noteq> CHR ''%'' \<and> c \<noteq> CHR ''+''"
  by (auto simp: unreserved_def)

lemma QueryUnescape_percent_encoded: "QueryUnescape (percent_encoded s) = Inr s"
proof (induction s)
  case Nil
  then show ?case by (simp add: percent_encoded_def)
next
  case (Cons c s)
  have rest: "QueryUnescape (percent_encoded s) = Inr s" by (rule Cons.IH)
  have step: "percent_encoded (c # s) =
      (if unreserved c then [c]
       else if c = CHR '' '' then ''+''
       else [CHR ''%'', hex_digit (of_char c div 16), hex_digit (of_char c mod 16)])
      @ percent_encoded s"
    by (simp add: percent_encoded_def)
  have "(of_char c :: nat) < 16 * 16" by simp
  then have hi: "(of_char c :: nat) div 16 < 16" by (rule less_mult_imp_div_less)
  have lo: "(of_char c :: nat) mod 16 < 16" by simp
  show ?case
  proof (cases "unreserved c")
    case True
    with unreserved_plain [OF True] rest step show ?thesis by simp
  next
    case False
    show ?thesis
    proof (cases "c = CHR '' ''")
      case True
      with False rest step show ?thesis by simp
    next
      case sp: False
      have "char_of (unhex (hex_digit (of_char c div 16)) * 16
               + unhex (hex_digit (of_char c mod 16))) = c"
        by (simp add: unhex_hex_digit [OF hi] unhex_hex_digit [OF lo])
      with False sp rest step ishex_hex_digit [OF hi] ishex_hex_digit [OF lo]
      show ?thesis by simp
    qed
  qed
qed

lemma Encode_sorted: "Encode v = Encode_sorted v"
proof -
  let ?pairs = "\<lambda>k. map (\<lambda>val. percent_encoded k @ ''='' @ percent_encoded val) (index v k)"
  have fn: "(\<lambda>buf k. foldl (\<lambda>buf val. (if length buf > 0 then buf @ ''&'' else buf)
                   @ QueryEscape k @ ''='' @ QueryEscape val) buf (index v k))
        = (\<lambda>buf k. foldl write_pair buf (?pairs k))"
    by (intro ext) (simp add: foldl_map write_pair_def QueryEscape_percent_encoded)
  have "Encode v = (if length v = 0 then []
          else foldl (\<lambda>buf k. foldl write_pair buf (?pairs k)) [] (sort (map fst v)))"
    by (simp only: Encode_def fn)
  also have "\<dots> = foldl (\<lambda>buf k. foldl write_pair buf (?pairs k)) [] (sort (map fst v))"
    by simp
  also have "\<dots> = foldl write_pair [] (concat (map ?pairs (sort (map fst v))))"
    by (rule foldl_foldl_concat)
  also have "\<dots> = Join (concat (map ?pairs (sort (map fst v)))) ''&''"
    by (rule foldl_write_pair_Join) auto
  finally show ?thesis by (simp add: Encode_sorted_def)
qed

section \<open>The requests\<close>

lemma httpRequest_GET:
  "httpRequest env runner sent u MethodGet client =
     (case url_Parse env u of
        Inl err \<Rightarrow> (Inl err, sent)
      | Inr p \<Rightarrow>
          (case client of
             None \<Rightarrow> (Inl (Panic ''nil pointer dereference''), sent)
           | Some cl \<Rightarrow>
               (client_Do env cl sent (GET_request runner u), sent @ [GET_request runner u])))"
  by (simp add: httpRequest_def http_NewRequest_def GET_request_def MethodGet_def Let_def
      split: sum.splits option.splits)

lemma first_failure_append:
  "first_failure env client sent (a @ b) =
     (case first_failure env client sent a of
        Some e \<Rightarrow> Some e
      | None \<Rightarrow> first_failure env client (sent @ a) b)"
  by (induction a arbitrary: sent) (simp_all split: sum.splits option.splits)

section \<open>The probing loop\<close>

lemma probe_urls_RawQuery [simp]:
  "probe_urls env (u\<lparr>RawQuery := x\<rparr>) query ps = probe_urls env u query ps"
  by (simp add: probe_urls_def)

lemma probe_urls_Cons:
  "index query p = tmp # vs \<Longrightarrow>
   probe_urls env u query (p # ps) =
     URL_String env (u\<lparr>RawQuery := Encode (Set query p payload)\<rparr>)
       # probe_urls env u (Set query p tmp) ps"
  by (simp add: probe_urls_def Encode_sorted)

lemma length_probe_queries: "length (probe_queries query ps) \<le> length ps"
  by (induction ps arbitrary: query) (auto split: list.splits)

lemma Set_Set [simp]: "Set (Set query p a) p b = Set query p b"
  by (simp add: Set_def)

text \<open>
  What the loop does, in terms of the requests it adds: they are GET requests for the
  probe URLs, in order; the results gain the findings of these probes and nothing else
  changes in them; no request follows one that fails, whose error is returned; and when
  the loop ends without an error every parameter has been probed and the parsed URL
  holds the raw query of the last probe.
\<close>

lemma reflect_loop_summary:
  "reflect_loop env runner ps (query, u, results, sent) = (query', u', results', sent', err) \<Longrightarrow>
   \<exists>new. sent' = sent @ new \<and> length new \<le> length ps
     \<and> list_all (is_GET runner) new
     \<and> map URL_req new = take (length new) (probe_urls env u query ps)
     \<and> results' = results\<lparr>Params := (Params results)
          \<lparr>Reflected := Reflected (Params results)
             @ findings env (Client runner) sent (zip ps new)\<rparr>\<rparr>
     \<and> first_failure env (Client runner) sent (butlast new) = None
     \<and> (first_failure env (Client runner) sent new \<noteq> None
           \<longrightarrow> err = first_failure env (Client runner) sent new)
     \<and> (err = None \<longrightarrow> first_failure env (Client runner) sent new = None
           \<and> length new = length ps
           \<and> u' = u\<lparr>RawQuery := last (RawQuery u # map Encode_sorted (probe_queries query ps))\<rparr>)"
proof (induction ps arbitrary: query u results sent)
  case Nil
  then show ?case by simp
next
  case (Cons p ps)
  show ?case
  proof (cases "index query p")
    case Nil
    with Cons.prems have "sent' = sent" "results' = results" "err \<noteq> None"
      by auto
    then show ?thesis
      by (intro exI [of _ "[]"]) simp
  next
    case (Cons tmp vs)
    let ?q1 = "Set query p payload"
    let ?u1 = "u\<lparr>RawQuery := Encode ?q1\<rparr>"
    let ?url = "URL_String env ?u1"
    let ?req = "GET_request runner ?url"
    note urls = probe_urls_Cons [OF Cons, of env u ps]
    show ?thesis
    proof (cases "url_Parse env ?url")
      case (Inl e)
      with Cons.prems Cons have "sent' = sent" "results' = results" "err \<noteq> None"
        by (auto simp: httpRequest_GET Let_def)
      then show ?thesis
        by (intro exI [of _ "[]"]) simp
    next
      case (Inr pu)
      show ?thesis
      proof (cases "Client runner")
        case None
        with Cons.prems Cons Inr have "sent' = sent" "results' = results" "err \<noteq> None"
          by (auto simp: httpRequest_GET Let_def)
        then show ?thesis
          by (intro exI [of _ "[]"]) simp
      next
        case (Some cl)
        show ?thesis
        proof (cases "outcome env (Client runner) sent ?req")
          case (Inl e)
          with Cons.prems Cons Inr Some
          have "sent' = sent @ [?req]" "results' = results" "err = Some e"
            by (auto simp: httpRequest_GET outcome_def Let_def split: sum.splits)
          with Inl urls show ?thesis
            by (intro exI [of _ "[?req]"]) (simp add: is_GET_def GET_request_def)
        next
          case body: (Inr body)
          with Some obtain res where
            res: "client_Do env cl sent ?req = Inr res" and rb: "Body_res res = Inr body"
            by (auto simp: outcome_def split: sum.splits)
          let ?r1 = "if FindStringSubmatch (Str payload) body \<noteq> None then
                       results\<lparr>Params := (Params results)
                         \<lparr>Reflected := Reflected (Params results) @
                            [\<lparr>Param_refl = p, URL_refl = ?url\<rparr>]\<rparr>\<rparr>
                     else results"
          from Cons.prems Cons Inr Some res rb
          have rec: "reflect_loop env runner ps (Set query p tmp, ?u1, ?r1, sent @ [?req])
                       = (query', u', results', sent', err)"
            by (simp add: httpRequest_GET Let_def)
          from Cons.IH [OF rec] obtain new where
            IH: "sent' = (sent @ [?req]) @ new \<and> length new \<le> length ps
               \<and> list_all (is_GET runner) new
               \<and> map URL_req new = take (length new) (probe_urls env ?u1 (Set query p tmp) ps)
               \<and> results' = ?r1\<lparr>Params := (Params ?r1)
                    \<lparr>Reflected := Reflected (Params ?r1)
                       @ findings env (Client runner) (sent @ [?req]) (zip ps new)\<rparr>\<rparr>
               \<and> first_failure env (Client runner) (sent @ [?req]) (butlast new) = None
               \<and> (first_failure env (Client runner) (sent @ [?req]) new \<noteq> None
                    \<longrightarrow> err = first_failure env (Client runner) (sent @ [?req]) new)
               \<and> (err = None \<longrightarrow> first_failure env (Client runner) (sent @ [?req]) new = None
                    \<and> length new = length ps
                    \<and> u' = ?u1\<lparr>RawQuery := last (RawQuery ?u1
                          # map Encode_sorted (probe_queries (Set query p tmp) ps))\<rparr>)" ..
          then have new: "sent' = (sent @ [?req]) @ new" "length new \<le> length ps"
                 "list_all (is_GET runner) new"
                 "map URL_req new = take (length new) (probe_urls env ?u1 (Set query p tmp) ps)"
                 "results' = ?r1\<lparr>Params := (Params ?r1)
                    \<lparr>Reflected := Reflected (Params ?r1)
                       @ findings env (Client runner) (sent @ [?req]) (zip ps new)\<rparr>\<rparr>"
                 "first_failure env (Client runner) (sent @ [?req]) (butlast new) = None"
                 "first_failure env (Client runner) (sent @ [?req]) new \<noteq> None
                    \<longrightarrow> err = first_failure env (Client runner) (sent @ [?req]) new"
                 "err = None \<longrightarrow> first_failure env (Client runner) (sent @ [?req]) new = None
                    \<and> length new = length ps
                    \<and> u' = ?u1\<lparr>RawQuery := last (RawQuery ?u1
                          # map Encode_sorted (probe_queries (Set query p tmp) ps))\<rparr>"
            by - (elim conjE, assumption)+
          have "sent' = sent @ (?req # new)" using new(1) by simp
          moreover have "length (?req # new) \<le> length (p # ps)" using new(2) by simp
          moreover have "list_all (is_GET runner) (?req # new)"
            using new(3) by (simp add: is_GET_def GET_request_def)
          moreover have "map URL_req (?req # new)
              = take (length (?req # new)) (probe_urls env u query (p # ps))"
            using new(4) urls by (simp add: GET_request_def)
          moreover have "results' = results\<lparr>Params := (Params results)
            \<lparr>Reflected := Reflected (Params results)
               @ findings env (Client runner) sent (zip (p # ps) (?req # new))\<rparr>\<rparr>"
            using new(5) body by (simp add: GET_request_def)
          moreover have "first_failure env (Client runner) sent (butlast (?req # new)) = None"
            using new(6) body by simp
          moreover have "first_failure env (Client runner) sent (?req # new) \<noteq> None
              \<longrightarrow> err = first_failure env (Client runner) sent (?req # new)"
            using new(7) body by simp
          moreover have "err = None \<longrightarrow> first_failure env (Client runner) sent (?req # new) = None
              \<and> length (?req # new) = length (p # ps)
              \<and> u' = u\<lparr>RawQuery := last (RawQuery u
                    # map Encode_sorted (probe_queries query (p # ps)))\<rparr>"
            using new(8) body Cons by (simp add: Encode_sorted)
          ultimately show ?thesis
            by - (rule exI [of _ "?req # new"], (intro conjI; assumption))
        qed
      qed
    qed
  qed
qed

section \<open>The request for the page\<close>

lemma request_stage_summary:
  "request_stage env runner u results sent = (results', err, sent') \<Longrightarrow>
   \<exists>new. sent' = sent @ new \<and> length new \<le> 1
     \<and> list_all (is_GET runner) new
     \<and> map URL_req new = take (length new) [URL_String env u]
     \<and> (err \<noteq> None \<longrightarrow> results' = results)
     \<and> URL results' = URL results \<and> Category results' = Category results
     \<and> Params results' = Params results
     \<and> (first_failure env (Client runner) sent new \<noteq> None
           \<longrightarrow> err = first_failure env (Client runner) sent new)
     \<and> (err = None \<longrightarrow> (\<exists>body. new = [GET_request runner (URL_String env u)]
           \<and> outcome env (Client runner) sent (GET_request runner (URL_String env u)) = Inr body
           \<and> DOM results' = DOM results @ page_DOM results body))"
  by (auto simp: request_stage_def httpRequest_GET outcome_def is_GET_def GET_request_def Let_def
        page_DOM_def
      split: option.splits sum.splits)

section \<open>The stages together\<close>

lemma findings_urls:
  "set (map URL_refl (findings env client sent prs)) \<subseteq> set (map (\<lambda>pr. URL_req (snd pr)) prs)"
  by (induction prs arbitrary: sent) (auto split: sum.splits)

lemma Process_stages_eq:
  "Process_stages env runner query u results =
     (case reflect_loop env runner (probed env runner query)
             (query, u, params_loop env runner (listed env runner query) results, []) of
        (q2, u2, r2, s2, e2) \<Rightarrow>
          (case e2 of
             Some e \<Rightarrow> (r2, Some e, s2)
           | None \<Rightarrow>
               if Request (Options runner) \<or> All (Options runner)
               then request_stage env runner u2 r2 s2 else (r2, None, s2)))"
  by (simp add: Process_stages_def listed_def probed_def Let_def split: prod.splits)

text \<open>
  What the stages do to the results they are given and which requests they send.
\<close>

lemma Process_stages_summary:
  assumes "Process_stages env runner query u results0 = (results, err, sent)"
  shows "URL results = URL results0 \<and> Category results = Category results0
    \<and> List (Params results) = List (Params results0) @ listed env runner query
    \<and> Risky (Params results) = Risky (Params results0)
           @ concat (map (matched env (Params_cat runner)) (listed env runner query))
    \<and> Reflected (Params results) = Reflected (Params results0)
           @ findings env (Client runner) [] (zip (probed env runner query) sent)
    \<and> list_all (is_GET runner) sent
    \<and> first_failure env (Client runner) [] (butlast sent) = None
    \<and> map URL_req sent = take (length sent)
           (probe_urls env u query (probed env runner query)
              @ [page_url env u query (probed env runner query)])
    \<and> (err \<noteq> None \<longrightarrow> StatusCode results = StatusCode results0
           \<and> ContentType results = ContentType results0
           \<and> ContentLength results = ContentLength results0 \<and> DOM results = DOM results0)
    \<and> (first_failure env (Client runner) [] sent \<noteq> None
           \<longrightarrow> err = first_failure env (Client runner) [] sent)
    \<and> (err = None \<longrightarrow> first_failure env (Client runner) [] sent = None)
    \<and> set (map URL_refl (findings env (Client runner) [] (zip (probed env runner query) sent)))
          \<subseteq> set (probe_urls env u query (probed env runner query))
    \<and> (DOM results \<noteq> DOM results0
           \<longrightarrow> Category results0 = ''js'' \<or> Category results0 = ''endpoint'')"
proof -
  let ?ps = "probed env runner query"
  let ?c = "Client runner"
  let ?r1 = "params_loop env runner (listed env runner query) results0"
  obtain q2 u2 r2 s2 e2 where
    L: "reflect_loop env runner ?ps (query, u, ?r1, []) = (q2, u2, r2, s2, e2)"
    by (cases "reflect_loop env runner ?ps (query, u, ?r1, [])") auto
  from reflect_loop_summary [OF L] obtain new where
    S: "s2 = [] @ new \<and> length new \<le> length ?ps
     \<and> list_all (is_GET runner) new
     \<and> map URL_req new = take (length new) (probe_urls env u query ?ps)
     \<and> r2 = ?r1\<lparr>Params := (Params ?r1)
          \<lparr>Reflected := Reflected (Params ?r1) @ findings env ?c [] (zip ?ps new)\<rparr>\<rparr>
     \<and> first_failure env ?c [] (butlast new) = None
     \<and> (first_failure env ?c [] new \<noteq> None \<longrightarrow> e2 = first_failure env ?c [] new)
     \<and> (e2 = None \<longrightarrow> first_failure env ?c [] new = None
           \<and> length new = length ?ps
           \<and> u2 = u\<lparr>RawQuery := last (RawQuery u # map Encode_sorted (probe_queries query ?ps))\<rparr>)" ..
  then have n: "s2 = [] @ new" "length new \<le> length ?ps" "list_all (is_GET runner) new"
       "map URL_req new = take (length new) (probe_urls env u query ?ps)"
       "r2 = ?r1\<lparr>Params := (Params ?r1)\<lparr>Reflected := Reflected (Params ?r1)
              @ findings env ?c [] (zip ?ps new)\<rparr>\<rparr>"
       "first_failure env ?c [] (butlast new) = None"
       "first_failure env ?c [] new \<noteq> None \<longrightarrow> e2 = first_failure env ?c [] new"
       "e2 = None \<longrightarrow> first_failure env ?c [] new = None \<and> length new = length ?ps
          \<and> u2 = u\<lparr>RawQuery := last (RawQuery u # map Encode_sorted (probe_queries query ?ps))\<rparr>"
    by - (elim conjE, assumption)+
  have "length (map URL_req new) = length (take (length new) (probe_urls env u query ?ps))"
    using n(4) by simp
  then have len: "length (probe_urls env u query ?ps) \<ge> length new"
    by simp
  have r1: "URL ?r1 = URL results0" "Category ?r1 = Category results0"
    "List (Params ?r1) = List (Params results0) @ listed env runner query"
    "Risky (Params ?r1) = Risky (Params results0)
       @ concat (map (matched env (Params_cat runner)) (listed env runner query))"
    "Reflected (Params ?r1) = Reflected (Params results0)"
    "StatusCode ?r1 = StatusCode results0" "ContentType ?r1 = ContentType results0"
    "ContentLength ?r1 = ContentLength results0" "DOM ?r1 = DOM results0"
    by (simp_all add: params_loop_eq)
  have r2: "URL r2 = URL results0" "Category r2 = Category results0"
    "List (Params r2) = List (Params results0) @ listed env runner query"
    "Risky (Params r2) = Risky (Params results0)
       @ concat (map (matched env (Params_cat runner)) (listed env runner query))"
    "Reflected (Params r2) = Reflected (Params results0)
       @ findings env ?c [] (zip ?ps new)"
    "StatusCode r2 = StatusCode results0" "ContentType r2 = ContentType results0"
    "ContentLength r2 = ContentLength results0" "DOM r2 = DOM results0"
    unfolding n(5) using r1 by simp_all
  have "set (map URL_refl (findings env ?c [] (zip ?ps new))) \<subseteq> set (map URL_req new)"
    by (rule order_trans [OF findings_urls]) (auto dest: set_zip_rightD)
  also have "\<dots> \<subseteq> set (probe_urls env u query ?ps)"
    unfolding n(4) by (rule set_take_subset)
  finally have furl: "set (map URL_refl (findings env ?c [] (zip ?ps new)))
      \<subseteq> set (probe_urls env u query ?ps)" .
  show ?thesis
  proof (cases "e2 = None \<and> (Request (Options runner) \<or> All (Options runner))")
    case False
    with assms L have eq: "results = r2" "sent = new" "err = e2"
      using n(1) by (auto simp: Process_stages_eq split: option.splits)
    have urls: "map URL_req sent = take (length sent)
           (probe_urls env u query ?ps @ [page_url env u query ?ps])"
      using n(4) len eq(2) by simp
    have ok: "err = None \<longrightarrow> first_failure env ?c [] sent = None"
      using n(8) eq by simp
    have fl: "first_failure env ?c [] sent \<noteq> None \<longrightarrow> err = first_failure env ?c [] sent"
      using n(7) eq by simp
    have unset: "err \<noteq> None \<longrightarrow> StatusCode results = StatusCode results0
           \<and> ContentType results = ContentType results0
           \<and> ContentLength results = ContentLength results0 \<and> DOM results = DOM results0"
      using r2 eq(1) by simp
    have "URL results = URL results0" "Category results = Category results0"
      "List (Params results) = List (Params results0) @ listed env runner query"
      "Risky (Params results) = Risky (Params results0)
           @ concat (map (matched env (Params_cat runner)) (listed env runner query))"
      "Reflected (Params results) = Reflected (Params results0)
           @ findings env ?c [] (zip ?ps sent)"
      "list_all (is_GET runner) sent"
      "first_failure env ?c [] (butlast sent) = None"
      using r2(1-5) n(3,6) eq(1,2) by simp_all
    moreover note urls unset fl ok
    moreover have "set (map URL_refl (findings env ?c [] (zip ?ps sent)))
          \<subseteq> set (probe_urls env u query ?ps)"
      using furl eq(2) by simp
    moreover have "DOM results \<noteq> DOM results0
           \<longrightarrow> Category results0 = ''js'' \<or> Category results0 = ''endpoint''"
      using r2(9) eq(1) by simp
    ultimately show ?thesis
      by - (intro conjI; assumption)
  next
    case True
    with assms L n(1) have R: "request_stage env runner u2 r2 new = (results, err, sent)"
      by (auto simp: Process_stages_eq)
    let ?page = "GET_request runner (URL_String env u2)"
    from request_stage_summary [OF R] obtain new2 where
      T: "sent = new @ new2 \<and> length new2 \<le> 1
     \<and> list_all (is_GET runner) new2
     \<and> map URL_req new2 = take (length new2) [URL_String env u2]
     \<and> (err \<noteq> None \<longrightarrow> results = r2)
     \<and> URL results = URL r2 \<and> Category results = Category r2
     \<and> Params results = Params r2
     \<and> (first_failure env ?c new new2 \<noteq> None \<longrightarrow> err = first_failure env ?c new new2)
     \<and> (err = None \<longrightarrow> (\<exists>body. new2 = [?page]
           \<and> outcome env ?c new ?page = Inr body
           \<and> DOM results = DOM r2 @ page_DOM r2 body))" ..
    then have
      m: "sent = new @ new2" "length new2 \<le> 1" "list_all (is_GET runner) new2"
         "map URL_req new2 = take (length new2) [URL_String env u2]"
         "err \<noteq> None \<longrightarrow> results = r2"
         "URL results = URL r2" "Category results = Category r2" "Params results = Params r2"
         "first_failure env ?c new new2 \<noteq> None \<longrightarrow> err = first_failure env ?c new new2"
         "err = None \<longrightarrow> (\<exists>body. new2 = [?page]
           \<and> outcome env ?c new ?page = Inr body
           \<and> DOM results = DOM r2 @ page_DOM r2 body)"
      by - (elim conjE, assumption)+
    from True n(8) have full: "first_failure env ?c [] new = None" "length new = length ?ps"
      "URL_String env u2 = page_url env u query ?ps"
      by (simp_all add: page_url_def)
    have "length (probe_urls env u query ?ps) \<le> length ?ps"
      by (simp add: probe_urls_def length_probe_queries)
    with len full(2) have eqlen: "length (probe_urls env u query ?ps) = length new"
      by simp
    have bl: "butlast sent = (if new2 = [] then butlast new else new)"
      using m(1,2) by (cases new2) (auto simp: butlast_append)
    have ans: "first_failure env ?c [] (butlast sent) = None"
      using bl n(6) full(1) by simp
    have urls: "map URL_req sent = take (length sent)
           (probe_urls env u query ?ps @ [page_url env u query ?ps])"
      using m(1,2,4) n(4) full(3) eqlen by (cases new2) auto
    have ff: "first_failure env ?c [] sent = first_failure env ?c new new2"
      using m(1) full(1) by (simp add: first_failure_append)
    have ok: "err = None \<longrightarrow> first_failure env ?c [] sent = None"
      unfolding ff using m(10) by auto
    have fl: "first_failure env ?c [] sent \<noteq> None \<longrightarrow> err = first_failure env ?c [] sent"
      unfolding ff using m(9) by simp
    have refl: "findings env ?c [] (zip ?ps sent) = findings env ?c [] (zip ?ps new)"
      using m(1) full(2) by (simp add: zip_append2)
    have gets: "list_all (is_GET runner) sent"
      using m(1,3) n(3) by simp
    have unset: "err \<noteq> None \<longrightarrow> StatusCode results = StatusCode results0
           \<and> ContentType results = ContentType results0
           \<and> ContentLength results = ContentLength results0 \<and> DOM results = DOM results0"
      using m(5) r2 by auto
    have "URL results = URL results0" "Category results = Category results0"
      "List (Params results) = List (Params results0) @ listed env runner query"
      "Risky (Params results) = Risky (Params results0)
           @ concat (map (matched env (Params_cat runner)) (listed env runner query))"
      "Reflected (Params results) = Reflected (Params results0)
           @ findings env ?c [] (zip ?ps sent)"
      using m(6,7,8) r2(1-5) refl by simp_all
    moreover note gets ans urls unset fl ok
    moreover have "set (map URL_refl (findings env ?c [] (zip ?ps sent)))
          \<subseteq> set (probe_urls env u query ?ps)"
      using furl refl by simp
    moreover have "DOM results \<noteq> DOM results0
           \<longrightarrow> Category results0 = ''js'' \<or> Category results0 = ''endpoint''"
    proof (cases err)
      case None
      with m(10) obtain body where "DOM results = DOM r2 @ page_DOM r2 body"
        by blast
      with r2(2,9) show ?thesis
        by (auto simp: page_DOM_def split: if_splits)
    next
      case (Some e)
      with m(5) r2(9) show ?thesis by simp
    qed
    ultimately show ?thesis
      by - (intro conjI; assumption)
  qed
qed

lemma Process_parsed:
  assumes "parses env url u0 u query"
  shows "Process env runner url =
     Process_stages env runner query u
       (zero_Results\<lparr>URL := URL_String env u0,
          Category := (if C (Options runner) \<or> All (Options runner)
                       then classify runner url else [])\<rparr>)"
proof -
  from assms obtain unescaped where
    p: "url_Parse env url = Inr u0" "QueryUnescape (URL_String env u0) = Inr unescaped"
       "url_Parse env unescaped = Inr u" "ParseQuery (RawQuery u) = (query, None)"
    by (auto simp: parses_def split: sum.splits)
  have z: "zero_Results\<lparr>URL := URL_String env u0, Category := []\<rparr>
             = zero_Results\<lparr>URL := URL_String env u0\<rparr>"
    by (simp add: zero_Results_def)
  show ?thesis
    by (simp add: Process_def Let_def categorize_classify p z)
qed


lemma Process_summary:
  assumes "parses env url u0 u query" and "Process env runner url = (results, err, sent)"
  shows "Process_stages env runner query u
       (zero_Results\<lparr>URL := URL_String env u0,
          Category := (if C (Options runner) \<or> All (Options runner)
                       then classify runner url else [])\<rparr>) = (results, err, sent)"
  using assms by (simp add: Process_parsed)

text \<open>
  When the input parses, the parameter list of the record is the list of the parameters
  visited by the first loop, and the risky parameters are their first matches in the
  catalog, in that order.
\<close>

lemma Process_listing:
  assumes "parses env url u0 u query"
  shows "List (Params (fst (Process env runner url))) = listed env runner query
    \<and> Risky (Params (fst (Process env runner url)))
        = concat (map (matched env (Params_cat runner)) (listed env runner query))"
proof -
  let ?r0 = "zero_Results\<lparr>URL := URL_String env u0,
          Category := (if C (Options runner) \<or> All (Options runner)
                       then classify runner url else [])\<rparr>"
  obtain results err sent where P: "Process env runner url = (results, err, sent)"
    by (cases "Process env runner url") auto
  from Process_stages_summary [OF Process_summary [OF assms P]]
  have "List (Params results) = List (Params ?r0) @ listed env runner query"
    "Risky (Params results) = Risky (Params ?r0)
           @ concat (map (matched env (Params_cat runner)) (listed env runner query))"
    by - (elim conjE, assumption)+
  with P show ?thesis
    by (simp add: zero_Results_def)
qed

section \<open>Examples\<close>

text \<open>The lookup in the catalog ignores case, and the first entry that matches is taken.\<close>

lemma matched_examples:
  "matched (test_env down_Do []) [\<lparr>Param = ''id'', Risks = [''SQLi'']\<rparr>] ''ID''
     = [\<lparr>Param = ''id'', Risks = [''SQLi'']\<rparr>]"
  "matched (test_env down_Do []) [\<lparr>Param = ''id'', Risks = [''SQLi'']\<rparr>] ''Id''
     = [\<lparr>Param = ''id'', Risks = [''SQLi'']\<rparr>]"
  "matched (test_env down_Do []) [\<lparr>Param = ''id'', Risks = [''SQLi'']\<rparr>] ''idx'' = []"
  "matched (test_env down_Do [])
     [\<lparr>Param = ''id'', Risks = [''SQLi'']\<rparr>, \<lparr>Param = ''ID'', Risks = [''SSRF'']\<rparr>] ''iD''
     = [\<lparr>Param = ''id'', Risks = [''SQLi'']\<rparr>]"
  "matched (test_env down_Do []) [\<lparr>Param = [CHR 0xC3, CHR 0xA9], Risks = [''XSS'']\<rparr>]
     [CHR 0xC3, CHR 0x89]
     = [\<lparr>Param = [CHR 0xC3, CHR 0xA9], Risks = [''XSS'']\<rparr>]"
  by code_simp+

text \<open>
  A run with every stage on, against the echo server, with a catalog entry for the
  parameter.
\<close>

lemma run_end_to_end:
  "Process (test_env echo_Do [\<lparr>Param = ''q'', Risks = [''XSS'']\<rparr>])
     (test_runner (test_options\<lparr>All := True\<rparr>) [\<lparr>Param = ''q'', Risks = [''XSS'']\<rparr>])
     ''http://example.test/search?q=test''
   = (\<lparr>URL = ''http://example.test/search?q=test'', Category = ''endpoint'',
       StatusCode = 200, ContentType = ''text/html'', ContentLength = 46,
       Params = \<lparr>List = [''q''], Risky = [\<lparr>Param = ''q'', Risks = [''XSS'']\<rparr>],
          Reflected = [\<lparr>Param_refl = ''q'',
            URL_refl = ''http://example.test/search?q=iy3j4h234hjb23234''\<rparr>]\<rparr>,
       DOM = []\<rparr>,
     None,
     [\<lparr>Method = ''GET'', URL_req = ''http://example.test/search?q=iy3j4h234hjb23234'',
        Header = [(''User-Agent'', [''sigurlx''])], Body_req = None\<rparr>,
      \<lparr>Method = ''GET'', URL_req = ''http://example.test/search?q=iy3j4h234hjb23234'',
        Header = [(''User-Agent'', [''sigurlx''])], Body_req = None\<rparr>])"
  by code_simp


lemma run_echo_q:
  "Process (test_env echo_Do []) (test_runner (test_options\<lparr>PR := True, Request := True\<rparr>) [])
     ''http://h/p?q=1''
  = (\<lparr>URL = ''http://h/p?q=1'', Category = [], StatusCode = 200,
       ContentType = ''text/html'', ContentLength = 30,
       Params = \<lparr>List = [], Risky = [],
          Reflected = [\<lparr>Param_refl = ''q'', URL_refl = ''http://h/p?q=iy3j4h234hjb23234''\<rparr>]\<rparr>,
       DOM = []\<rparr>,
     None,
     [\<lparr>Method = ''GET'', URL_req = ''http://h/p?q=iy3j4h234hjb23234'',
        Header = [(''User-Agent'', [''sigurlx''])], Body_req = None\<rparr>,
      \<lparr>Method = ''GET'', URL_req = ''http://h/p?q=iy3j4h234hjb23234'',
        Header = [(''User-Agent'', [''sigurlx''])], Body_req = None\<rparr>])"
  by code_simp

text \<open>
  The classifier with the patterns of \<^verbatim>\<open>New\<close>. The last URL matches the pattern of
  \<^verbatim>\<open>js\<close> and the pattern of \<^verbatim>\<open>media\<close>; the first in the order decides.
\<close>

lemma categorize_examples:
  "categorize (test_runner test_options []) ''http://h/a.js?x=1'' = (''js'', None)"
  "categorize (test_runner test_options []) ''http://h/a.jsx'' = (''endpoint'', None)"
  "categorize (test_runner test_options []) ''http://h/d.pdf'' = (''doc'', None)"
  "categorize (test_runner test_options []) ''http://h/a.json'' = (''data'', None)"
  "categorize (test_runner test_options []) ''http://h/x.css?v=2'' = (''style'', None)"
  "categorize (test_runner test_options []) ''http://h/i.png'' = (''media'', None)"
  "categorize (test_runner test_options []) ''http://h/a.tar.gz'' = (''archive'', None)"
  "categorize (test_runner test_options []) ''http://h/search?q=1'' = (''endpoint'', None)"
  "categorize (test_runner test_options []) ''http://h/i.png?x=.js'' = (''js'', None)"
  by code_simp+

text \<open>
  The timeout of the client is the timeout of the options in nanoseconds, within 64
  bits: ten seconds are ten thousand million nanoseconds, and from 9223372037 seconds on
  the product wraps around to a negative duration.
\<close>

lemma New_Timeout_examples:
  "map_option Timeout_cl (Client (fst (New (test_env down_Do []) test_options)))
     = Some 10000000000"
  "map_option Timeout_cl
     (Client (fst (New (test_env down_Do []) (test_options\<lparr>Timeout := 9223372037\<rparr>))))
     = Some (- 9223372036709551616)"
  by code_simp+

section \<open>The outbound requests\<close>










text \<open>
  C8, as the specification states it, fails for the requests that leave the client.
  The client that \<^verbatim>\<open>New\<close> builds follows redirects. Here the server answers the
  request for \<^verbatim>\<open>http://h/p\<close> with status 302 and the location \<^verbatim>\<open>/login\<close>:
  \<^verbatim>\<open>Process\<close> hands one request to the client, with the one header
  \<^verbatim>\<open>User-Agent\<close>, and the client sends a second request, for \<^verbatim>\<open>http://h/login\<close>,
  which carries a \<^verbatim>\<open>Referer\<close> header besides \<^verbatim>\<open>User-Agent\<close>. The results are those
  of the second answer.
\<close>

theorem redirect_follow_up_carries_Referer:
  "snd (snd (Process (wired login_wire (test_env down_Do []))
         (test_runner (test_options\<lparr>Request := True\<rparr>) []) ''http://h/p''))
     = [\<lparr>Method = ''GET'', URL_req = ''http://h/p'',
         Header = [(''User-Agent'', [''sigurlx''])], Body_req = None\<rparr>]
   \<and> wire_log login_wire (snd (snd (Process (wired login_wire (test_env down_Do []))
         (test_runner (test_options\<lparr>Request := True\<rparr>) []) ''http://h/p'')))
     = [\<lparr>Method = ''GET'', URL_req = ''http://h/p'',
         Header = [(''User-Agent'', [''sigurlx''])], Body_req = None\<rparr>,
        \<lparr>Method = ''GET'', URL_req = ''http://h/login'',
         Header = [(''User-Agent'', [''sigurlx'']), (''Referer'', [''http://h/p''])],
         Body_req = None\<rparr>]
   \<and> StatusCode (fst (Process (wired login_wire (test_env down_Do []))
         (test_runner (test_options\<lparr>Request := True\<rparr>) []) ''http://h/p'')) = 200"
  by code_simp



section \<open>The proxy of the client\<close>

text \<open>
  C10. When the catalog loads and the proxy of the options is not empty but does not
  parse, \<^verbatim>\<open>New\<close> returns a nil error and a client whose transport has no proxy: the
  error of the parser is dropped.
\<close>

theorem New_drops_proxy_error:
  assumes "ReadFile env (params_File env) = Inr raw"
    and "json_Unmarshal env raw = (ps, None)"
    and "Proxy options \<noteq> []"
    and "url_Parse env (Proxy options) = Inl e"
  shows "snd (New env options) = None
    \<and> (case Client (fst (New env options)) of
          None \<Rightarrow> False
        | Some cl \<Rightarrow> Proxy_tr (Transport cl) = None)"
  using assms by (simp add: New_def Let_def)

text \<open>An instance: a proxy URL with a control character, which the parser rejects.\<close>

theorem New_drops_proxy_error_witness:
  "Proxy (test_options\<lparr>Proxy := [CHR 0x7F]\<rparr>) \<noteq> []
   \<and> url_Parse (test_env down_Do []) (Proxy (test_options\<lparr>Proxy := [CHR 0x7F]\<rparr>))
        = Inl (Error ''net/url: invalid control character in URL'')
   \<and> snd (New (test_env down_Do []) (test_options\<lparr>Proxy := [CHR 0x7F]\<rparr>)) = None
   \<and> (case Client (fst (New (test_env down_Do []) (test_options\<lparr>Proxy := [CHR 0x7F]\<rparr>))) of
          None \<Rightarrow> False
        | Some cl \<Rightarrow> Proxy_tr (Transport cl) = None)"
proof -
  let ?E = "test_env down_Do []"
  let ?O = "test_options\<lparr>Proxy := [CHR 0x7F]\<rparr>"
  have 1: "ReadFile ?E (params_File ?E) = Inr []" by (simp add: test_env_def)
  have 2: "json_Unmarshal ?E [] = ([], None)" by (simp add: test_env_def)
  have 3: "Proxy ?O \<noteq> []" by simp
  have 4: "url_Parse ?E (Proxy ?O) = Inl (Error ''net/url: invalid control character in URL'')"
    by (simp add: test_env_def test_Parse_def)
  from New_drops_proxy_error [OF 1 2 3 4] 3 4 show ?thesis by simp
qed

section \<open>The URLs of the probes\<close>

text \<open>
  C9. When the input parses, the URLs of the requests that \<^verbatim>\<open>Process\<close> sends are, in
  order, the probe URLs and then the URL of the page, as far as requests are sent. A
  probe URL is the parsed URL with its raw query replaced by the encoding of the query
  map of that probe: the pairs \<^verbatim>\<open>key=value\<close> joined by \<^verbatim>\<open>&\<close>, the keys in sorted
  order (the byte-wise order of \<^verbatim>\<open>sort.Strings\<close>, upper case before lower case), keys
  and values percent-encoded. The URL in every reflected finding is one of the probe
  URLs. The percent-encoding is the one that unescaping undoes.
\<close>

theorem Process_probe_urls_sorted:
  assumes "parses env url u0 u query"
  shows "map URL_req (snd (snd (Process env runner url)))
           = take (length (snd (snd (Process env runner url))))
               (map (\<lambda>q. URL_String env
                       (u\<lparr>RawQuery :=
                          Join (concat (map (\<lambda>k. map (\<lambda>val. percent_encoded k @ ''=''
                                                            @ percent_encoded val) (index q k))
                                 (sort (map fst q)))) ''&''\<rparr>))
                    (probe_queries query (probed env runner query))
                @ [page_url env u query (probed env runner query)])
    \<and> set (map URL_refl (Reflected (Params (fst (Process env runner url)))))
         \<subseteq> set (map (\<lambda>q. URL_String env
                       (u\<lparr>RawQuery :=
                          Join (concat (map (\<lambda>k. map (\<lambda>val. percent_encoded k @ ''=''
                                                            @ percent_encoded val) (index q k))
                                 (sort (map fst q)))) ''&''\<rparr>))
                     (probe_queries query (probed env runner query)))
    \<and> QueryUnescape (percent_encoded s) = Inr s"
proof -
  obtain results err sent where P: "Process env runner url = (results, err, sent)"
    by (cases "Process env runner url") auto
  note S = Process_stages_summary [OF Process_summary [OF assms P]]
  from S have "map URL_req sent = take (length sent)
           (probe_urls env u query (probed env runner query)
              @ [page_url env u query (probed env runner query)])"
    by (elim conjE)
  moreover from S have "Reflected (Params results) =
      Reflected (Params (zero_Results\<lparr>URL := URL_String env u0,
          Category := (if C (Options runner) \<or> All (Options runner)
                       then classify runner url else [])\<rparr>))
      @ findings env (Client runner) [] (zip (probed env runner query) sent)"
    by (elim conjE)
  then have "Reflected (Params results)
      = findings env (Client runner) [] (zip (probed env runner query) sent)"
    by (simp add: zero_Results_def)
  moreover from S have "set (map URL_refl (findings env (Client runner) []
        (zip (probed env runner query) sent)))
      \<subseteq> set (probe_urls env u query (probed env runner query))"
    by (elim conjE)
  ultimately show ?thesis
    using P by (simp add: probe_urls_def Encode_sorted_def QueryUnescape_percent_encoded)
qed

text \<open>
  An instance: the query \<^verbatim>\<open>b=x%2Fy&a=1&B=2\<close> is probed for \<^verbatim>\<open>b\<close>, then for
  \<^verbatim>\<open>a\<close>, then for \<^verbatim>\<open>B\<close>. In every probe URL the keys come in the order
  \<^verbatim>\<open>B\<close>, \<^verbatim>\<open>a\<close>, \<^verbatim>\<open>b\<close>, unlike in the input, and the value \<^verbatim>\<open>x/y\<close> of
  \<^verbatim>\<open>b\<close> is written \<^verbatim>\<open>x%2Fy\<close>. The echo server reflects every probe, and the findings
  record these URLs.
\<close>

theorem Process_probe_urls_sorted_witness:
  "parses (test_env echo_Do []) ''http://h/?b=x%2Fy&a=1&B=2''
     \<lparr>Scheme = ''http'', Host = ''h'', Path = ''/'', ForceQuery = False,
      RawQuery = ''b=x%2Fy&a=1&B=2'', Fragment = []\<rparr>
     \<lparr>Scheme = ''http'', Host = ''h'', Path = ''/'', ForceQuery = False,
      RawQuery = ''b=x/y&a=1&B=2'', Fragment = []\<rparr>
     [(''b'', [''x/y'']), (''a'', [''1'']), (''B'', [''2''])]
   \<and> map URL_req (snd (snd (Process (test_env echo_Do [])
         (test_runner (test_options\<lparr>PR := True\<rparr>) []) ''http://h/?b=x%2Fy&a=1&B=2'')))
       = [''http://h/?B=2&a=1&b=iy3j4h234hjb23234'',
          ''http://h/?B=2&a=iy3j4h234hjb23234&b=x%2Fy'',
          ''http://h/?B=iy3j4h234hjb23234&a=1&b=x%2Fy'']
   \<and> Reflected (Params (fst (Process (test_env echo_Do [])
         (test_runner (test_options\<lparr>PR := True\<rparr>) []) ''http://h/?b=x%2Fy&a=1&B=2'')))
       = [\<lparr>Param_refl = ''b'', URL_refl = ''http://h/?B=2&a=1&b=iy3j4h234hjb23234''\<rparr>,
          \<lparr>Param_refl = ''a'', URL_refl = ''http://h/?B=2&a=iy3j4h234hjb23234&b=x%2Fy''\<rparr>,
          \<lparr>Param_refl = ''B'', URL_refl = ''http://h/?B=iy3j4h234hjb23234&a=1&b=x%2Fy''\<rparr>]
   \<and> percent_encoded ''x/y z&'' = ''x%2Fy+z%26''
   \<and> QueryUnescape (percent_encoded ''x/y z&'') = Inr ''x/y z&''"
proof -
  let ?E = "test_env echo_Do []"
  let ?R = "test_runner (test_options\<lparr>PR := True\<rparr>) []"
  let ?v = "\<lparr>Scheme = ''http'', Host = ''h'', Path = ''/'', ForceQuery = False,
      RawQuery = ''b=x%2Fy&a=1&B=2'', Fragment = []\<rparr>"
  let ?u = "\<lparr>Scheme = ''http'', Host = ''h'', Path = ''/'', ForceQuery = False,
      RawQuery = ''b=x/y&a=1&B=2'', Fragment = []\<rparr>"
  let ?q = "[(''b'', [''x/y'']), (''a'', [''1'']), (''B'', [''2''])]"
  have p: "parses ?E ''http://h/?b=x%2Fy&a=1&B=2'' ?v ?u ?q"
    by code_simp
  have len: "length (snd (snd (Process ?E ?R ''http://h/?b=x%2Fy&a=1&B=2''))) = 3"
    by code_simp
  have urls: "take 3 (map (\<lambda>q. URL_String ?E
                       (?u\<lparr>RawQuery :=
                          Join (concat (map (\<lambda>k. map (\<lambda>val. percent_encoded k @ ''=''
                                                            @ percent_encoded val) (index q k))
                                 (sort (map fst q)))) ''&''\<rparr>))
                    (probe_queries ?q (probed ?E ?R ?q))
                @ [page_url ?E ?u ?q (probed ?E ?R ?q)])
      = [''http://h/?B=2&a=1&b=iy3j4h234hjb23234'',
         ''http://h/?B=2&a=iy3j4h234hjb23234&b=x%2Fy'',
         ''http://h/?B=iy3j4h234hjb23234&a=1&b=x%2Fy'']"
    by code_simp
  have refl: "Reflected (Params (fst (Process ?E ?R ''http://h/?b=x%2Fy&a=1&B=2'')))
       = [\<lparr>Param_refl = ''b'', URL_refl = ''http://h/?B=2&a=1&b=iy3j4h234hjb23234''\<rparr>,
          \<lparr>Param_refl = ''a'', URL_refl = ''http://h/?B=2&a=iy3j4h234hjb23234&b=x%2Fy''\<rparr>,
          \<lparr>Param_refl = ''B'', URL_refl = ''http://h/?B=iy3j4h234hjb23234&a=1&b=x%2Fy''\<rparr>]"
    by code_simp
  have enc: "percent_encoded ''x/y z&'' = ''x%2Fy+z%26''"
    by code_simp
  note T = Process_probe_urls_sorted [OF p, of ?R "''x/y z&''"]
  from T have a: "map URL_req (snd (snd (Process ?E ?R ''http://h/?b=x%2Fy&a=1&B=2'')))
      = take (length (snd (snd (Process ?E ?R ''http://h/?b=x%2Fy&a=1&B=2''))))
          (map (\<lambda>q. URL_String ?E
                       (?u\<lparr>RawQuery :=
                          Join (concat (map (\<lambda>k. map (\<lambda>val. percent_encoded k @ ''=''
                                                            @ percent_encoded val) (index q k))
                                 (sort (map fst q)))) ''&''\<rparr>))
                    (probe_queries ?q (probed ?E ?R ?q))
                @ [page_url ?E ?u ?q (probed ?E ?R ?q)])"
    by (elim conjE)
  have b: "map URL_req (snd (snd (Process ?E ?R ''http://h/?b=x%2Fy&a=1&B=2'')))
      = [''http://h/?B=2&a=1&b=iy3j4h234hjb23234'',
         ''http://h/?B=2&a=iy3j4h234hjb23234&b=x%2Fy'',
         ''http://h/?B=iy3j4h234hjb23234&a=1&b=x%2Fy'']"
    unfolding a len urls ..
  from T have c: "QueryUnescape (percent_encoded ''x/y z&'') = Inr ''x/y z&''"
    by (elim conjE)
  from p b refl enc c show ?thesis
    by - (intro conjI; assumption)
qed

text \<open>
  When every parameter that is probed has one value, the query map of each probe is the
  parsed query with that one parameter set to the marker.
\<close>

lemma probe_queries_single_valued:
  "\<forall>p \<in> set ps. \<exists>v. index query p = [v] \<Longrightarrow>
   probe_queries query ps = map (\<lambda>p. Set query p payload) ps"
proof (induction ps)
  case Nil
  then show ?case by simp
next
  case (Cons p ps)
  then obtain v where v: "index query p = [v]" by auto
  then have "map_of query p = Some [v]"
    by (auto simp: index_def split: option.splits)
  then have "Set query p v = query"
    by (simp add: Set_def update_triv)
  with Cons v show ?case by simp
qed

text \<open>
  C1. With parameters that have two values the claim fails, whatever the order of the
  iteration: for the query \<^verbatim>\<open>a=1&a=2&b=3&b=4\<close>, the second probe is sent with only
  the first value of the parameter probed first (\<^verbatim>\<open>a=1\<close> when \<^verbatim>\<open>a\<close> is probed
  first, \<^verbatim>\<open>b=3\<close> when \<^verbatim>\<open>b\<close> is). The loop saves only the first value of a
  parameter and sets the parameter back to that one value, so the other value is lost.
\<close>

theorem probe_after_multi_valued_parameter:
  "index (fst (ParseQuery ''a=1&a=2&b=3&b=4'')) ''a'' = [''1'', ''2'']
   \<and> index (fst (ParseQuery ''a=1&a=2&b=3&b=4'')) ''b'' = [''3'', ''4'']
   \<and> map URL_req (snd (snd (Process (test_env echo_Do [])
         (test_runner (test_options\<lparr>PR := True\<rparr>) []) ''http://h/?a=1&a=2&b=3&b=4'')))
       = [''http://h/?a=iy3j4h234hjb23234&b=3&b=4'', ''http://h/?a=1&b=iy3j4h234hjb23234'']
   \<and> map URL_req (snd (snd (Process ((test_env echo_Do [])\<lparr>range_probe := rev\<rparr>)
         (test_runner (test_options\<lparr>PR := True\<rparr>) []) ''http://h/?a=1&a=2&b=3&b=4'')))
       = [''http://h/?a=1&a=2&b=iy3j4h234hjb23234'', ''http://h/?a=iy3j4h234hjb23234&b=3'']"
  by code_simp

section \<open>The URL of the page\<close>

text \<open>
  C3. After a probe, the request for the page goes to the URL of the last probe, with the
  marker in it: for \<^verbatim>\<open>http://h/p?q=1\<close> with the probes and the request enabled, both
  requests go to \<^verbatim>\<open>http://h/p?q=iy3j4h234hjb23234\<close>. The loop writes the encoded query
  into the parsed URL for each probe and restores the map afterwards, not the URL.
\<close>

theorem page_request_carries_marker:
  "URL (fst (Process (test_env echo_Do [])
        (test_runner (test_options\<lparr>PR := True, Request := True\<rparr>) []) ''http://h/p?q=1''))
     = ''http://h/p?q=1''
   \<and> StatusCode (fst (Process (test_env echo_Do [])
        (test_runner (test_options\<lparr>PR := True, Request := True\<rparr>) []) ''http://h/p?q=1'')) = 200
   \<and> map URL_req (snd (snd (Process (test_env echo_Do [])
        (test_runner (test_options\<lparr>PR := True, Request := True\<rparr>) []) ''http://h/p?q=1'')))
     = [''http://h/p?q=iy3j4h234hjb23234'', ''http://h/p?q=iy3j4h234hjb23234'']"
  by (simp add: run_echo_q)

section \<open>Errors of requests\<close>

lemma run_once_ab:
  "Process (test_env once_Do []) (test_runner (test_options\<lparr>All := True\<rparr>) []) ''http://h/?a=1&b=2''
   = (\<lparr>URL = ''http://h/?a=1&b=2'', Category = ''endpoint'', StatusCode = 0,
       ContentType = [], ContentLength = 0,
       Params = \<lparr>List = [''a'', ''b''], Risky = [],
          Reflected = [\<lparr>Param_refl = ''a'', URL_refl = ''http://h/?a=iy3j4h234hjb23234&b=2''\<rparr>]\<rparr>,
       DOM = []\<rparr>,
     Some (Error ''connection refused''),
     [\<lparr>Method = ''GET'', URL_req = ''http://h/?a=iy3j4h234hjb23234&b=2'',
        Header = [(''User-Agent'', [''sigurlx''])], Body_req = None\<rparr>,
      \<lparr>Method = ''GET'', URL_req = ''http://h/?a=1&b=iy3j4h234hjb23234'',
        Header = [(''User-Agent'', [''sigurlx''])], Body_req = None\<rparr>])"
  by code_simp

text \<open>
  C2, the claim as stated fails: when the second probe fails, \<^verbatim>\<open>Process\<close> returns the
  error together with a record that holds the category, the parameter list and the
  finding of the first probe.
\<close>

theorem Process_error_with_partial_record:
  "fst (snd (Process (test_env once_Do []) (test_runner (test_options\<lparr>All := True\<rparr>) [])
       ''http://h/?a=1&b=2'')) = Some (Error ''connection refused'')
   \<and> Category (fst (Process (test_env once_Do []) (test_runner (test_options\<lparr>All := True\<rparr>) [])
       ''http://h/?a=1&b=2'')) = ''endpoint''
   \<and> List (Params (fst (Process (test_env once_Do []) (test_runner (test_options\<lparr>All := True\<rparr>) [])
       ''http://h/?a=1&b=2''))) = [''a'', ''b'']
   \<and> Reflected (Params (fst (Process (test_env once_Do [])
       (test_runner (test_options\<lparr>All := True\<rparr>) []) ''http://h/?a=1&b=2'')))
       = [\<lparr>Param_refl = ''a'', URL_refl = ''http://h/?a=iy3j4h234hjb23234&b=2''\<rparr>]"
  by (simp add: run_once_ab)

text \<open>
  C2, amended. When the input parses and a request fails with an error, \<^verbatim>\<open>Process\<close>
  returns that error; the failed request is the last one sent; the status code, content
  type, content length and DOM matches of the record are unset; and the record returned
  with the error holds what the stages before the failure put in it: the URL, the
  category, the parameter list, the risky parameters, and the findings of the probes
  that were sent.
\<close>

theorem Process_request_failure:
  assumes "parses env url u0 u query"
    and "Process env runner url = (results, err, sent)"
    and "first_failure env (Client runner) [] sent = Some e"
  shows "err = Some e
    \<and> first_failure env (Client runner) [] (butlast sent) = None
    \<and> URL results = URL_String env u0
    \<and> Category results =
         (if C (Options runner) \<or> All (Options runner) then classify runner url else [])
    \<and> List (Params results) = listed env runner query
    \<and> Risky (Params results) =
         concat (map (matched env (Params_cat runner)) (listed env runner query))
    \<and> Reflected (Params results) =
         findings env (Client runner) [] (zip (probed env runner query) sent)
    \<and> StatusCode results = 0 \<and> ContentType results = [] \<and> ContentLength results = 0
    \<and> DOM results = []"
proof -
  let ?r0 = "zero_Results\<lparr>URL := URL_String env u0,
          Category := (if C (Options runner) \<or> All (Options runner)
                       then classify runner url else [])\<rparr>"
  note S = Process_stages_summary [OF Process_summary [OF assms(1,2)]]
  have r0: "URL ?r0 = URL_String env u0"
    "Category ?r0 = (if C (Options runner) \<or> All (Options runner) then classify runner url else [])"
    "List (Params ?r0) = []" "Risky (Params ?r0) = []" "Reflected (Params ?r0) = []"
    "StatusCode ?r0 = 0" "ContentType ?r0 = []" "ContentLength ?r0 = 0" "DOM ?r0 = []"
    by (simp_all add: zero_Results_def)
  from S have "first_failure env (Client runner) [] sent \<noteq> None
           \<longrightarrow> err = first_failure env (Client runner) [] sent"
    by (elim conjE)
  with assms(3) have err: "err = Some e" by simp
  from S have "err \<noteq> None \<longrightarrow> StatusCode results = StatusCode ?r0
           \<and> ContentType results = ContentType ?r0
           \<and> ContentLength results = ContentLength ?r0 \<and> DOM results = DOM ?r0"
    by (elim conjE)
  with err r0 have unset: "StatusCode results = 0" "ContentType results = []"
    "ContentLength results = 0" "DOM results = []"
    by simp_all
  from S have "first_failure env (Client runner) [] (butlast sent) = None"
    by (elim conjE)
  moreover from S have "URL results = URL ?r0" "Category results = Category ?r0"
    "List (Params results) = List (Params ?r0) @ listed env runner query"
    "Risky (Params results) = Risky (Params ?r0)
           @ concat (map (matched env (Params_cat runner)) (listed env runner query))"
    "Reflected (Params results) = Reflected (Params ?r0)
           @ findings env (Client runner) [] (zip (probed env runner query) sent)"
    by - (elim conjE, assumption)+
  ultimately show ?thesis
    using err unset r0 by simp
qed

text \<open>
  An instance: the network answers the probe of \<^verbatim>\<open>a\<close> and refuses the probe of
  \<^verbatim>\<open>b\<close>.
\<close>

theorem Process_request_failure_witness:
  "parses (test_env once_Do []) ''http://h/?a=1&b=2''
     \<lparr>Scheme = ''http'', Host = ''h'', Path = ''/'', ForceQuery = False,
      RawQuery = ''a=1&b=2'', Fragment = []\<rparr>
     \<lparr>Scheme = ''http'', Host = ''h'', Path = ''/'', ForceQuery = False,
      RawQuery = ''a=1&b=2'', Fragment = []\<rparr>
     [(''a'', [''1'']), (''b'', [''2''])]
   \<and> first_failure (test_env once_Do [])
        (Client (test_runner (test_options\<lparr>All := True\<rparr>) [])) []
        (snd (snd (Process (test_env once_Do []) (test_runner (test_options\<lparr>All := True\<rparr>) [])
           ''http://h/?a=1&b=2''))) = Some (Error ''connection refused'')
   \<and> fst (snd (Process (test_env once_Do []) (test_runner (test_options\<lparr>All := True\<rparr>) [])
        ''http://h/?a=1&b=2'')) = Some (Error ''connection refused'')
   \<and> length (snd (snd (Process (test_env once_Do []) (test_runner (test_options\<lparr>All := True\<rparr>) [])
        ''http://h/?a=1&b=2''))) = 2
   \<and> StatusCode (fst (Process (test_env once_Do []) (test_runner (test_options\<lparr>All := True\<rparr>) [])
        ''http://h/?a=1&b=2'')) = 0"
proof -
  let ?E = "test_env once_Do []"
  let ?R = "test_runner (test_options\<lparr>All := True\<rparr>) []"
  let ?url = "''http://h/?a=1&b=2''"
  let ?u = "\<lparr>Scheme = ''http'', Host = ''h'', Path = ''/'', ForceQuery = False,
      RawQuery = ''a=1&b=2'', Fragment = []\<rparr>"
  let ?q = "[(''a'', [''1'']), (''b'', [''2''])]"
  have p: "parses ?E ?url ?u ?u ?q"
    by code_simp
  have P: "Process ?E ?R ?url
     = (fst (Process ?E ?R ?url), fst (snd (Process ?E ?R ?url)), snd (snd (Process ?E ?R ?url)))"
    by simp
  have f: "first_failure ?E (Client ?R) [] (snd (snd (Process ?E ?R ?url)))
     = Some (Error ''connection refused'')"
    unfolding run_once_ab by code_simp
  have len: "length (snd (snd (Process ?E ?R ?url))) = 2"
    by (simp add: run_once_ab)
  from Process_request_failure [OF p P f] p f len show ?thesis
    by simp
qed

section \<open>The shape of the record\<close>

lemma classify_nonempty: "classify runner url \<noteq> []"
  by (simp add: classify_def category_patterns_def)

lemma listed_nonempty:
  assumes "visits_each_once (range_params env) (map fst query)"
  shows "listed env runner query \<noteq> [] \<longleftrightarrow>
     query \<noteq> [] \<and> (P (Options runner) \<or> PV (Options runner) \<or> All (Options runner))"
proof -
  from assms have "set (range_params env (map fst query)) = set (map fst query)"
    by (simp add: visits_each_once_def)
  then have "range_params env (map fst query) = [] \<longleftrightarrow> query = []"
    by (metis map_is_Nil_conv set_empty)
  then show ?thesis
    by (auto simp: listed_def)
qed

text \<open>
  C7, the claim as stated fails: the URL \<^verbatim>\<open>http://h/?&\<close> has the query string
  \<^verbatim>\<open>&\<close>, which is not empty and has no parameter; with the parameter scan requested,
  \<^verbatim>\<open>Process\<close> succeeds and the parameter list is empty.
\<close>

theorem empty_list_for_nonempty_query_string:
  "url_Parse (test_env down_Do []) ''http://h/?&''
     = Inr \<lparr>Scheme = ''http'', Host = ''h'', Path = ''/'', ForceQuery = False,
            RawQuery = ''&'', Fragment = []\<rparr>
   \<and> ParseQuery ''&'' = ([], None)
   \<and> P (Options (test_runner (test_options\<lparr>P := True\<rparr>) []))
   \<and> fst (snd (Process (test_env down_Do []) (test_runner (test_options\<lparr>P := True\<rparr>) [])
        ''http://h/?&'')) = None
   \<and> List (Params (fst (Process (test_env down_Do []) (test_runner (test_options\<lparr>P := True\<rparr>) [])
        ''http://h/?&''))) = []"
  by code_simp

text \<open>
  C7, amended. For every record that \<^verbatim>\<open>Process\<close> returns without an error, where the
  first loop visits every key of the query once: the category is non-empty exactly when
  the classification is requested (\<^verbatim>\<open>C\<close> or \<^verbatim>\<open>All\<close>), and the parameter list is
  non-empty exactly when the parsed query has a parameter and the parameter scan is
  requested (\<^verbatim>\<open>P\<close>, \<^verbatim>\<open>PV\<close> or \<^verbatim>\<open>All\<close>).
\<close>

theorem Process_category_and_list:
  assumes "parses env url u0 u query"
    and "Process env runner url = (results, None, sent)"
    and "visits_each_once (range_params env) (map fst query)"
  shows "(Category results \<noteq> [] \<longleftrightarrow> C (Options runner) \<or> All (Options runner))
    \<and> (List (Params results) \<noteq> [] \<longleftrightarrow>
         query \<noteq> [] \<and> (P (Options runner) \<or> PV (Options runner) \<or> All (Options runner)))"
proof -
  let ?r0 = "zero_Results\<lparr>URL := URL_String env u0,
          Category := (if C (Options runner) \<or> All (Options runner)
                       then classify runner url else [])\<rparr>"
  note S = Process_stages_summary [OF Process_summary [OF assms(1,2)]]
  from S have "Category results = Category ?r0"
    "List (Params results) = List (Params ?r0) @ listed env runner query"
    by - (elim conjE, assumption)+
  then have "Category results =
       (if C (Options runner) \<or> All (Options runner) then classify runner url else [])"
    "List (Params results) = listed env runner query"
    by (simp_all add: zero_Results_def)
  with listed_nonempty [OF assms(3), of runner] show ?thesis
    by (simp add: classify_nonempty)
qed

text \<open>An instance: one parameter, with the classification and the risky scan requested.\<close>

theorem Process_category_and_list_witness:
  "parses (test_env echo_Do []) ''http://h/?q=1''
     \<lparr>Scheme = ''http'', Host = ''h'', Path = ''/'', ForceQuery = False,
      RawQuery = ''q=1'', Fragment = []\<rparr>
     \<lparr>Scheme = ''http'', Host = ''h'', Path = ''/'', ForceQuery = False,
      RawQuery = ''q=1'', Fragment = []\<rparr>
     [(''q'', [''1''])]
   \<and> fst (snd (Process (test_env echo_Do []) (test_runner (test_options\<lparr>C := True, PV := True\<rparr>) [])
        ''http://h/?q=1'')) = None
   \<and> visits_each_once (range_params (test_env echo_Do [])) (map fst [(''q'', [''1''])])
   \<and> Category (fst (Process (test_env echo_Do []) (test_runner (test_options\<lparr>C := True, PV := True\<rparr>) [])
        ''http://h/?q=1'')) \<noteq> []
   \<and> List (Params (fst (Process (test_env echo_Do [])
        (test_runner (test_options\<lparr>C := True, PV := True\<rparr>) []) ''http://h/?q=1''))) \<noteq> []"
proof -
  let ?E = "test_env echo_Do []"
  let ?R = "test_runner (test_options\<lparr>C := True, PV := True\<rparr>) []"
  let ?url = "''http://h/?q=1''"
  let ?u = "\<lparr>Scheme = ''http'', Host = ''h'', Path = ''/'', ForceQuery = False,
      RawQuery = ''q=1'', Fragment = []\<rparr>"
  let ?q = "[(''q'', [''1''])]"
  have p: "parses ?E ?url ?u ?u ?q"
    by code_simp
  have ok: "fst (snd (Process ?E ?R ?url)) = None"
    by code_simp
  then have P: "Process ?E ?R ?url = (fst (Process ?E ?R ?url), None, snd (snd (Process ?E ?R ?url)))"
    by (simp add: prod_eq_iff)
  have v: "visits_each_once (range_params ?E) (map fst ?q)"
    by (simp add: visits_each_once_def test_env_def)
  have o: "C (Options ?R)" "PV (Options ?R)"
    by code_simp+
  from Process_category_and_list [OF p P v] p ok v o show ?thesis
    by simp
qed

section \<open>The DOM pattern\<close>

text \<open>
  The gate: \<^verbatim>\<open>Process\<close> records DOM matches only when the classification ran and gave
  \<^verbatim>\<open>js\<close> or \<^verbatim>\<open>endpoint\<close>.
\<close>

lemma Process_DOM_gate:
  assumes "parses env url u0 u query" and "DOM (fst (Process env runner url)) \<noteq> []"
  shows "(C (Options runner) \<or> All (Options runner))
    \<and> (classify runner url = ''js'' \<or> classify runner url = ''endpoint'')"
proof -
  let ?r0 = "zero_Results\<lparr>URL := URL_String env u0,
          Category := (if C (Options runner) \<or> All (Options runner)
                       then classify runner url else [])\<rparr>"
  obtain results err sent where P: "Process env runner url = (results, err, sent)"
    by (cases "Process env runner url") auto
  from Process_stages_summary [OF Process_summary [OF assms(1) P]]
  have "DOM results \<noteq> DOM ?r0 \<longrightarrow> Category ?r0 = ''js'' \<or> Category ?r0 = ''endpoint''"
    by (elim conjE)
  with assms(2) P show ?thesis
    by (auto simp: zero_Results_def split: if_splits)
qed

text \<open>The pattern matches an assignment to a sink that has a slash right before it.\<close>

lemma DOM_pattern_with_slash:
  "FindStringSubmatch domXSS ''x/location = foo''
     = Some [''/location ='', ''location ='', ''location'', [], [], []]"
  by code_simp

text \<open>
  C4. The claim fails for the body \<^verbatim>\<open>document.location = foo\<close> with the category
  \<^verbatim>\<open>endpoint\<close>: the pattern does not match it, and the record has no DOM match. The
  pattern starts and ends with a slash, which Go takes as a literal byte: the left
  alternative needs a slash right before the sink name, the right one a slash right
  after the opening parenthesis.
\<close>

theorem DOM_pattern_misses_location_assignment:
  "FindStringSubmatch domXSS ''document.location = foo'' = None
   \<and> Category (fst (Process (test_env (static_Do ''document.location = foo'') [])
        (test_runner (test_options\<lparr>C := True, Request := True\<rparr>) []) ''http://h/a'')) = ''endpoint''
   \<and> StatusCode (fst (Process (test_env (static_Do ''document.location = foo'') [])
        (test_runner (test_options\<lparr>C := True, Request := True\<rparr>) []) ''http://h/a'')) = 200
   \<and> DOM (fst (Process (test_env (static_Do ''document.location = foo'') [])
        (test_runner (test_options\<lparr>C := True, Request := True\<rparr>) []) ''http://h/a'')) = []"
  by code_simp

end
